theory Spec2Isabelle
  imports Complex_Main
begin

section \<open>Tensor elements\<close>

text \<open>
  A tensor element is a floating-point number. The model keeps the special values of
  IEEE 754 that the reduction can produce (a division by zero gives an infinity or NaN,
  never an exception) and takes every finite value as the exact real: rounding, overflow
  and the sign of zero are not modelled (a zero divisor is taken as \<open>+0\<close>).
\<close>

datatype fl = Fin real | PInf | NInf | NaN

fun is_fin :: "fl \<Rightarrow> bool" where
  "is_fin (Fin _) = True"
| "is_fin _ = False"

instantiation fl :: "{zero, plus, times, inverse}"
begin

definition zero_fl :: fl where
  "zero_fl = Fin 0"

fun plus_fl :: "fl \<Rightarrow> fl \<Rightarrow> fl" where
  "plus_fl NaN _ = NaN"
| "plus_fl _ NaN = NaN"
| "plus_fl PInf NInf = NaN"
| "plus_fl NInf PInf = NaN"
| "plus_fl PInf _ = PInf"
| "plus_fl _ PInf = PInf"
| "plus_fl NInf _ = NInf"
| "plus_fl _ NInf = NInf"
| "plus_fl (Fin a) (Fin b) = Fin (a + b)"

fun times_fl :: "fl \<Rightarrow> fl \<Rightarrow> fl" where
  "times_fl NaN _ = NaN"
| "times_fl _ NaN = NaN"
| "times_fl (Fin a) (Fin b) = Fin (a * b)"
| "times_fl (Fin a) PInf = (if a = 0 then NaN else if 0 < a then PInf else NInf)"
| "times_fl (Fin a) NInf = (if a = 0 then NaN else if 0 < a then NInf else PInf)"
| "times_fl PInf (Fin b) = (if b = 0 then NaN else if 0 < b then PInf else NInf)"
| "times_fl NInf (Fin b) = (if b = 0 then NaN else if 0 < b then NInf else PInf)"
| "times_fl PInf PInf = PInf"
| "times_fl PInf NInf = NInf"
| "times_fl NInf PInf = NInf"
| "times_fl NInf NInf = PInf"

fun divide_fl :: "fl \<Rightarrow> fl \<Rightarrow> fl" where
  "divide_fl NaN _ = NaN"
| "divide_fl _ NaN = NaN"
| "divide_fl (Fin a) (Fin b) =
     (if b \<noteq> 0 then Fin (a / b)
      else if a = 0 then NaN else if 0 < a then PInf else NInf)"
| "divide_fl (Fin a) PInf = Fin 0"
| "divide_fl (Fin a) NInf = Fin 0"
| "divide_fl PInf (Fin b) = (if 0 \<le> b then PInf else NInf)"
| "divide_fl NInf (Fin b) = (if 0 \<le> b then NInf else PInf)"
| "divide_fl PInf PInf = NaN"
| "divide_fl PInf NInf = NaN"
| "divide_fl NInf PInf = NaN"
| "divide_fl NInf NInf = NaN"

fun inverse_fl :: "fl \<Rightarrow> fl" where
  "inverse_fl NaN = NaN"
| "inverse_fl (Fin b) = (if b \<noteq> 0 then Fin (1 / b) else PInf)"
| "inverse_fl PInf = Fin 0"
| "inverse_fl NInf = Fin 0"

instance ..

end

lemma fl_add_assoc: "x + y + z = x + (y + z)" for x y z :: fl
  by (cases x; cases y; cases z) simp_all

lemma fl_add_commute: "x + y = y + x" for x y :: fl
  by (cases x; cases y) simp_all

lemma fl_zero_add: "0 + x = x" for x :: fl
  by (cases x) (simp_all add: zero_fl_def)

instance fl :: comm_monoid_add
proof
  fix x y z :: fl
  show "x + y + z = x + (y + z)" by (rule fl_add_assoc)
  show "x + y = y + x" by (rule fl_add_commute)
  show "0 + x = x" by (rule fl_zero_add)
qed

section \<open>Tensors and the encoder's outputs\<close>

text \<open>
  A tensor is a nested list, outermost axis first. The tensors of torch are rectangular;
  the predicates \<open>has_shape\<close> say so, and the theorems assume them of the encoder's
  outputs, with no axis empty (a nested list with an empty axis does not keep the sizes of
  the axes below it). \<open>outputs\<close> is what the encoder returns when asked for hidden
  states and attentions: a tuple of hidden-state tensors of shape (B, T, D) and a tuple of
  attention tensors of shape (B, H, T, T), one entry per layer.
\<close>

type_synonym t2 = "fl list list"
type_synonym t3 = "fl list list list"
type_synonym t4 = "fl list list list list"
type_synonym t5 = "fl list list list list list"

record outputs =
  hidden_states :: "t3 list"
  attentions :: "t4 list"

datatype error = IndexError | RuntimeError | ValueError | AttributeError | TypeError

definition has_shape2 :: "nat \<Rightarrow> nat \<Rightarrow> 'a list list \<Rightarrow> bool" where
  "has_shape2 m n x \<longleftrightarrow> length x = m \<and> list_all (\<lambda>r. length r = n) x"

definition has_shape3 :: "nat \<Rightarrow> nat \<Rightarrow> nat \<Rightarrow> 'a list list list \<Rightarrow> bool" where
  "has_shape3 b t d x \<longleftrightarrow> length x = b \<and> list_all (has_shape2 t d) x"

definition has_shape4 :: "nat \<Rightarrow> nat \<Rightarrow> nat \<Rightarrow> nat \<Rightarrow> 'a list list list list \<Rightarrow> bool" where
  "has_shape4 b h q t x \<longleftrightarrow> length x = b \<and> list_all (has_shape3 h q t) x"

text \<open>The sizes of a tensor, read along the first entry of every axis.\<close>

definition shape1 :: "'a list \<Rightarrow> nat list" where
  "shape1 x = [length x]"

definition shape2 :: "'a list list \<Rightarrow> nat list" where
  "shape2 x = length x # (case x of [] \<Rightarrow> [0] | r # _ \<Rightarrow> shape1 r)"

definition shape3 :: "'a list list list \<Rightarrow> nat list" where
  "shape3 x = length x # (case x of [] \<Rightarrow> [0, 0] | r # _ \<Rightarrow> shape2 r)"

definition shape4 :: "'a list list list list \<Rightarrow> nat list" where
  "shape4 x = length x # (case x of [] \<Rightarrow> [0, 0, 0] | r # _ \<Rightarrow> shape3 r)"

section \<open>The primitives of Python and torch that the reduction uses\<close>

text \<open>\<open>xs[i]\<close> on a tuple: a negative index counts from the end, out of range raises.\<close>

definition py_index :: "'a list \<Rightarrow> int \<Rightarrow> error + 'a" where
  "py_index xs i =
     (if 0 \<le> i \<and> i < int (length xs) then Inr (xs ! nat i)
      else if i < 0 \<and> - int (length xs) \<le> i then Inr (xs ! nat (int (length xs) + i))
      else Inl IndexError)"

text \<open>A list comprehension whose body may raise: the first failure ends it.\<close>

fun collect :: "('a \<Rightarrow> error + 'b) \<Rightarrow> 'a list \<Rightarrow> error + 'b list" where
  "collect f [] = Inr []"
| "collect f (x # xs) =
     (case f x of
        Inl e \<Rightarrow> Inl e
      | Inr y \<Rightarrow> (case collect f xs of Inl e \<Rightarrow> Inl e | Inr ys \<Rightarrow> Inr (y # ys)))"

text \<open>\<open>[xs[i] for i in range(-num_layers, 0)]\<close>.\<close>

definition last_layers :: "'a list \<Rightarrow> int \<Rightarrow> error + 'a list" where
  "last_layers xs num_layers = collect (py_index xs) [- num_layers..- 1]"

text \<open>
  \<open>torch.stack\<close> puts tensors of one shape along a new first axis; it raises on an
  empty list and on tensors of different shapes.
\<close>

definition torch_stack :: "('a \<Rightarrow> nat list) \<Rightarrow> 'a list \<Rightarrow> error + 'a list" where
  "torch_stack shape ts =
     (case ts of
        [] \<Rightarrow> Inl RuntimeError
      | t # _ \<Rightarrow> if list_all (\<lambda>u. shape u = shape t) ts then Inr ts else Inl RuntimeError)"

text \<open>
  A reduction over the first axis: entry \<open>i\<close> of the result is \<open>f\<close> of the entries
  \<open>i\<close> of all rows.
\<close>

definition reduce0 :: "('a list \<Rightarrow> 'b) \<Rightarrow> 'a list list \<Rightarrow> 'b list" where
  "reduce0 f xss = map f (transpose xss)"

text \<open>\<open>torch.sum(x, 0)\<close> of a tensor of shape (k, B, T, D).\<close>

definition torch_sum0 :: "t3 list \<Rightarrow> t3" where
  "torch_sum0 x = reduce0 (reduce0 (reduce0 sum_list)) x"

text \<open>\<open>torch.transpose(x, 1, 0)\<close>: the first two axes change places.\<close>

definition torch_transpose10 :: "'a list list \<Rightarrow> 'a list list" where
  "torch_transpose10 x = transpose x"

text \<open>The mean of the elements of a list: their sum divided by their number.\<close>

definition mean :: "fl list \<Rightarrow> fl" where
  "mean xs = sum_list xs / Fin (real (length xs))"

text \<open>
  \<open>torch.mean(x, (1, 2, 3))\<close> of a tensor of shape (B, k, H, T, T): for every entry of
  the first axis and every index of the last, the mean over the three axes between.
\<close>

definition torch_mean123 :: "t5 \<Rightarrow> t2" where
  "torch_mean123 x = map (\<lambda>xb. reduce0 mean (concat (concat xb))) x"

text \<open>
  \<open>x[:, 0] = 0.0\<close> writes column 0 of every row; index 0 is out of bounds for an axis
  of size 0.
\<close>

definition set_column0 :: "t2 \<Rightarrow> error + t2" where
  "set_column0 x =
     (if list_ex (\<lambda>r. r = []) x then Inl IndexError
      else Inr (map (\<lambda>r. r[0 := Fin 0]) x))"

text \<open>
  \<open>x / torch.unsqueeze(torch.sum(x, 1), 1)\<close>: the divisor has shape (B, 1) and is
  broadcast along each row, so every element is divided by the sum of its row.
\<close>

definition div_row_sum :: "t2 \<Rightarrow> t2" where
  "div_row_sum x = map (\<lambda>r. map (\<lambda>a. a / sum_list r) r) x"

text \<open>
  Broadcasting of torch along one axis: two sizes are compatible when they are equal or
  one of them is 1, and the operand of size 1 is repeated; otherwise the operation raises.
\<close>

definition broadcast :: "'a list \<Rightarrow> 'b list \<Rightarrow> error + ('a \<times> 'b) list" where
  "broadcast xs ys =
     (if length xs = length ys then Inr (zip xs ys)
      else if length xs = 1 then Inr (zip (replicate (length ys) (hd xs)) ys)
      else if length ys = 1 then Inr (zip xs (replicate (length xs) (hd ys)))
      else Inl RuntimeError)"

text \<open>
  \<open>h * w.unsqueeze(2)\<close> for \<open>h\<close> of shape (B, T, D) and \<open>w\<close> of shape (B', T'): the
  second operand has shape (B', T', 1), the first two axes are broadcast against each
  other, and the last one always is (a size against 1).
\<close>

definition mul_unsqueeze2 :: "t3 \<Rightarrow> t2 \<Rightarrow> error + t3" where
  "mul_unsqueeze2 h w =
     (case broadcast h w of
        Inl e \<Rightarrow> Inl e
      | Inr bs \<Rightarrow>
          collect (\<lambda>(hb, wb).
            case broadcast hb wb of
              Inl e \<Rightarrow> Inl e
            | Inr ts \<Rightarrow> Inr (map (\<lambda>(ht, a). map (\<lambda>x. x * a) ht) ts)) bs)"

text \<open>\<open>x.sum(1)\<close> of a tensor of shape (B, T, D).\<close>

definition torch_sum1 :: "t3 \<Rightarrow> t2" where
  "torch_sum1 x = map (reduce0 sum_list) x"

section \<open>The reduction of \<open>create_embeddings\<close>\<close>

text \<open>
  Lines 82 to 84: the hidden states of the last \<open>num_layers\<close> layers, stacked and
  summed over the layer axis.
\<close>

definition hidden_states_sum :: "outputs \<Rightarrow> int \<Rightarrow> error + t3" where
  "hidden_states_sum outs num_layers =
     (case last_layers (hidden_states outs) num_layers of
        Inl e \<Rightarrow> Inl e
      | Inr hs \<Rightarrow>
          (case torch_stack shape3 hs of
             Inl e \<Rightarrow> Inl e
           | Inr stacked \<Rightarrow> Inr (torch_sum0 stacked)))"

text \<open>
  Lines 86 to 90: the attentions of the last \<open>num_layers\<close> layers, stacked, the batch
  axis moved to the front, and averaged over layers, heads and queries.
\<close>

definition attentions_reduced :: "outputs \<Rightarrow> int \<Rightarrow> error + t2" where
  "attentions_reduced outs num_layers =
     (case last_layers (attentions outs) num_layers of
        Inl e \<Rightarrow> Inl e
      | Inr as \<Rightarrow>
          (case torch_stack shape4 as of
             Inl e \<Rightarrow> Inl e
           | Inr stacked \<Rightarrow> Inr (torch_mean123 (torch_transpose10 stacked))))"

text \<open>
  Lines 91 to 97: the class token's column is set to zero and every row is divided by
  its sum.
\<close>

definition reweight :: "t2 \<Rightarrow> error + t2" where
  "reweight reduced =
     (case set_column0 reduced of
        Inl e \<Rightarrow> Inl e
      | Inr zeroed \<Rightarrow> Inr (div_row_sum zeroed))"

definition attentions_reweighted :: "outputs \<Rightarrow> int \<Rightarrow> error + t2" where
  "attentions_reweighted outs num_layers =
     (case attentions_reduced outs num_layers of
        Inl e \<Rightarrow> Inl e
      | Inr reduced \<Rightarrow> reweight reduced)"

text \<open>
  Lines 82 to 100, all that \<open>create_embeddings\<close> does with the outputs of the encoder:
  the hidden states are summed first, then the weights are computed, then the weighted
  hidden states are summed over the tokens.
\<close>

definition reducer :: "outputs \<Rightarrow> int \<Rightarrow> error + t2" where
  "reducer outs num_layers =
     (case hidden_states_sum outs num_layers of
        Inl e \<Rightarrow> Inl e
      | Inr hs \<Rightarrow>
          (case attentions_reweighted outs num_layers of
             Inl e \<Rightarrow> Inl e
           | Inr w \<Rightarrow>
               (case mul_unsqueeze2 hs w of
                  Inl e \<Rightarrow> Inl e
                | Inr embeddings \<Rightarrow> Inr (torch_sum1 embeddings))))"

section \<open>The class and its public entry point\<close>

text \<open>
  The encoder and its processor are pretrained models of another library, and
  \<open>square_pad\<close> comes from a module that is not among the sources: the three are
  taken as functions, fields of the object, that return without raising. \<open>'img\<close> is
  an input image and \<open>'px\<close> the processor's batch of pixel values. Logging and the
  progress bar are left out.
\<close>

record ('img, 'px) imgbeddings =
  square_pad :: "'img \<Rightarrow> 'img"
  processor :: "'img list \<Rightarrow> 'px"
  model :: "'px \<Rightarrow> outputs"

text \<open>What the caller passes as \<open>inputs\<close>: a list, or one object that is not a list.\<close>

datatype 'img py_inputs = Single 'img | Many "'img list"

text \<open>What \<open>to_embeddings\<close> returns: a torch tensor or a numpy array of shape (N, D).\<close>

datatype embeddings_result = Tensor t2 | NdArray t2

text \<open>The rows of the result, whichever of the two it is.\<close>

fun rows_of :: "embeddings_result \<Rightarrow> t2" where
  "rows_of (Tensor x) = x"
| "rows_of (NdArray x) = x"

definition process_inputs :: "('img, 'px) imgbeddings \<Rightarrow> 'img list \<Rightarrow> 'px" where
  "process_inputs self inputs = processor self (map (square_pad self) inputs)"

definition create_embeddings :: "('img, 'px) imgbeddings \<Rightarrow> 'px \<Rightarrow> int \<Rightarrow> error + t2" where
  "create_embeddings self inputs num_layers = reducer (model self inputs) num_layers"

text \<open>\<open>range(0, stop, step)\<close> for a positive step, and the slice \<open>xs[i:j]\<close>.\<close>

definition py_range_step :: "nat \<Rightarrow> nat \<Rightarrow> nat list" where
  "py_range_step stop step = map (\<lambda>i. i * step) [0..<(stop + step - 1) div step]"

definition py_slice :: "'a list \<Rightarrow> nat \<Rightarrow> nat \<Rightarrow> 'a list" where
  "py_slice xs i j = take (j - i) (drop i xs)"

text \<open>
  The generator \<open>batch\<close> (lines 51 to 54). \<open>range\<close> raises on a step of zero and is
  empty for a negative one.
\<close>

definition batch :: "'a list \<Rightarrow> int \<Rightarrow> error + 'a list list" where
  "batch iterable n =
     (let length = length iterable
      in if n = 0 then Inl ValueError
         else if n < 0 then Inr []
         else Inr (map (\<lambda>ndx. py_slice iterable ndx (min (ndx + nat n) length))
                     (py_range_step length (nat n))))"

text \<open>
  The loop of lines 58 to 61. Its body assigns the embeddings of the batch to the
  variable \<open>embeddings\<close>; the variable's value after the last batch is the result.
\<close>

fun run_batches ::
  "('img, 'px) imgbeddings \<Rightarrow> int \<Rightarrow> t2 \<Rightarrow> 'img list list \<Rightarrow> error + t2" where
  "run_batches self num_layers embeddings [] = Inr embeddings"
| "run_batches self num_layers embeddings (input_batch # rest) =
     (case create_embeddings self (process_inputs self input_batch) num_layers of
        Inl e \<Rightarrow> Inl e
      | Inr embeddings' \<Rightarrow> run_batches self num_layers embeddings' rest)"

text \<open>
  \<open>np.vstack\<close> of the rows of its argument (an empty list, or a tensor of shape (B, D)
  that it iterates over): it raises when there is no row.
\<close>

definition np_vstack :: "t2 \<Rightarrow> error + t2" where
  "np_vstack rows = (if rows = [] then Inl ValueError else Inr rows)"

text \<open>
  Lines 35 to 68. In the second branch \<open>embeddings\<close> is a numpy array after
  \<open>np.vstack\<close>, and a numpy array has no method \<open>numpy\<close>.
\<close>

definition to_embeddings ::
  "('img, 'px) imgbeddings \<Rightarrow> 'img py_inputs \<Rightarrow> int \<Rightarrow> int \<Rightarrow> string \<Rightarrow>
     error + embeddings_result" where
  "to_embeddings self inputs num_layers batch_size return_format =
     (let inputs = (case inputs of Many xs \<Rightarrow> xs | Single x \<Rightarrow> [x])
      in if int (length inputs) < batch_size then
           (case create_embeddings self (process_inputs self inputs) num_layers of
              Inl e \<Rightarrow> Inl e
            | Inr embeddings \<Rightarrow>
                if return_format = ''np'' then Inr (NdArray embeddings)
                else Inr (Tensor embeddings))
         else
           (case batch inputs batch_size of
              Inl e \<Rightarrow> Inl e
            | Inr batches \<Rightarrow>
                (case run_batches self num_layers [] batches of
                   Inl e \<Rightarrow> Inl e
                 | Inr embeddings \<Rightarrow>
                     (case np_vstack embeddings of
                        Inl e \<Rightarrow> Inl e
                      | Inr embeddings \<Rightarrow>
                          if return_format = ''np'' then Inl AttributeError
                          else Inr (Tensor embeddings)))))"

section \<open>The reduction on a store of tensors\<close>

text \<open>
  To say what the reduction writes, tensors live in a store: a tensor object is an address
  and the store holds the contents of every address. The encoder's outputs are tuples of
  addresses. An operation of torch that returns a new tensor allocates a fresh address;
  \<open>torch.transpose\<close> and \<open>unsqueeze\<close> return views and allocate nothing; the
  assignment \<open>x[:, 0] = 0.0\<close> overwrites the contents at the address of \<open>x\<close>.
  Reading an address that holds a tensor of another rank is the \<open>TypeError\<close> of
  Python.
\<close>

type_synonym addr = nat

datatype tensor_val = Rank2 t2 | Rank3 t3 | Rank4 t4 | Rank5 t5

type_synonym store = "tensor_val list"

record outputs_ref =
  hidden_states_ref :: "addr list"
  attentions_ref :: "addr list"

definition and_then :: "error + 'a \<Rightarrow> ('a \<Rightarrow> error + 'b) \<Rightarrow> error + 'b" where
  "and_then m f = (case m of Inl e \<Rightarrow> Inl e | Inr x \<Rightarrow> f x)"

definition alloc :: "tensor_val \<Rightarrow> store \<Rightarrow> addr \<times> store" where
  "alloc v s = (length s, s @ [v])"

definition load2 :: "store \<Rightarrow> addr \<Rightarrow> error + t2" where
  "load2 s a = (if a < length s then (case s ! a of Rank2 x \<Rightarrow> Inr x | _ \<Rightarrow> Inl TypeError)
                else Inl TypeError)"

definition load3 :: "store \<Rightarrow> addr \<Rightarrow> error + t3" where
  "load3 s a = (if a < length s then (case s ! a of Rank3 x \<Rightarrow> Inr x | _ \<Rightarrow> Inl TypeError)
                else Inl TypeError)"

definition load4 :: "store \<Rightarrow> addr \<Rightarrow> error + t4" where
  "load4 s a = (if a < length s then (case s ! a of Rank4 x \<Rightarrow> Inr x | _ \<Rightarrow> Inl TypeError)
                else Inl TypeError)"

definition load5 :: "store \<Rightarrow> addr \<Rightarrow> error + t5" where
  "load5 s a = (if a < length s then (case s ! a of Rank5 x \<Rightarrow> Inr x | _ \<Rightarrow> Inl TypeError)
                else Inl TypeError)"

text \<open>
  Lines 82 to 100 once more, with every tensor read from the store and every result
  written to it. The variable \<open>attentions_reweighted\<close> of line 91 (\<open>reweighted\<close>) is
  the object \<open>attentions_reduced\<close> (\<open>reduced\<close>), so line 94 overwrites that address. The result is the address
  of the embeddings and the store after the call.
\<close>

definition reducer_store :: "store \<Rightarrow> outputs_ref \<Rightarrow> int \<Rightarrow> error + addr \<times> store" where
  "reducer_store s outs num_layers =
     and_then (last_layers (hidden_states_ref outs) num_layers) (\<lambda>refs.
     and_then (collect (load3 s) refs) (\<lambda>layers.
     and_then (torch_stack shape3 layers) (\<lambda>stacked.
     case alloc (Rank4 stacked) s of (stacked_ref, s) \<Rightarrow>
     and_then (load4 s stacked_ref) (\<lambda>x.
     case alloc (Rank3 (torch_sum0 x)) s of (hidden, s) \<Rightarrow>
     and_then (last_layers (attentions_ref outs) num_layers) (\<lambda>refs.
     and_then (collect (load4 s) refs) (\<lambda>layers.
     and_then (torch_stack shape4 layers) (\<lambda>stacked.
     case alloc (Rank5 stacked) s of (att, s) \<Rightarrow>
     and_then (load5 s att) (\<lambda>x.
     case alloc (Rank2 (torch_mean123 (torch_transpose10 x))) s of (reduced, s) \<Rightarrow>
     let reweighted = reduced in
     and_then (load2 s reweighted) (\<lambda>x.
     and_then (set_column0 x) (\<lambda>x.
     let s = s[reweighted := Rank2 x] in
     and_then (load2 s reweighted) (\<lambda>x.
     case alloc (Rank2 (div_row_sum x)) s of (weights, s) \<Rightarrow>
     and_then (load3 s hidden) (\<lambda>h.
     and_then (load2 s weights) (\<lambda>w.
     and_then (mul_unsqueeze2 h w) (\<lambda>x.
     case alloc (Rank3 x) s of (embeddings, s) \<Rightarrow>
     and_then (load3 s embeddings) (\<lambda>x.
     case alloc (Rank2 (torch_sum1 x)) s of (result, s) \<Rightarrow>
     Inr (result, s))))))))))))))))"

text \<open>The encoder's outputs as values, read from the store.\<close>

definition deref :: "store \<Rightarrow> outputs_ref \<Rightarrow> error + outputs" where
  "deref s outs =
     and_then (collect (load3 s) (hidden_states_ref outs)) (\<lambda>hs.
     and_then (collect (load4 s) (attentions_ref outs)) (\<lambda>as.
     Inr \<lparr>hidden_states = hs, attentions = as\<rparr>))"

section \<open>Windows of layers\<close>

text \<open>
  The last \<open>k\<close> entries of a tuple of layers, and what it means for the encoder's outputs
  to hold a window of \<open>k\<close> hidden-state layers of shape (B, T, D) and \<open>k\<close> attention
  layers of shape (B', H, T', T'), every axis non-empty. In a valid window the two
  agree on the batch and the token axis and there is a patch token besides the class
  token.
\<close>

definition window_of :: "'a list \<Rightarrow> int \<Rightarrow> 'a list" where
  "window_of xs k = drop (length xs - nat k) xs"

definition window ::
  "outputs \<Rightarrow> int \<Rightarrow> nat \<Rightarrow> nat \<Rightarrow> nat \<Rightarrow> nat \<Rightarrow> nat \<Rightarrow> nat \<Rightarrow> bool" where
  "window outs k B T D B' H T' \<longleftrightarrow>
     1 \<le> k \<and> k \<le> int (length (hidden_states outs)) \<and> k \<le> int (length (attentions outs)) \<and>
     1 \<le> B \<and> 1 \<le> T \<and> 1 \<le> D \<and> 1 \<le> B' \<and> 1 \<le> H \<and> 1 \<le> T' \<and>
     list_all (has_shape3 B T D) (window_of (hidden_states outs) k) \<and>
     list_all (has_shape4 B' H T' T') (window_of (attentions outs) k)"

definition valid_window ::
  "outputs \<Rightarrow> int \<Rightarrow> nat \<Rightarrow> nat \<Rightarrow> nat \<Rightarrow> nat \<Rightarrow> bool" where
  "valid_window outs k B T D H \<longleftrightarrow> window outs k B T D B H T \<and> 2 \<le> T"

section \<open>The reduction in the specification's words\<close>

text \<open>
  Step 1 of the specification: entry (b, t, d) of the summed hidden states is the sum over
  the layers of the window.
\<close>

definition layer_sum :: "t3 list \<Rightarrow> nat \<Rightarrow> nat \<Rightarrow> nat \<Rightarrow> fl" where
  "layer_sum hw b t d = sum_list (map (\<lambda>l. hw ! l ! b ! t ! d) [0..<length hw])"

text \<open>
  Step 2 of the specification: the importance of key token \<open>t\<close> of image \<open>b\<close> is the
  attention it receives, averaged over the \<open>k\<close> layers, the \<open>H\<close> heads and the \<open>T\<close>
  query positions of the window.
\<close>

definition key_importance :: "nat \<Rightarrow> nat \<Rightarrow> nat \<Rightarrow> t4 list \<Rightarrow> nat \<Rightarrow> nat \<Rightarrow> fl" where
  "key_importance k H T aw b t =
     sum_list (map (\<lambda>l. sum_list (map (\<lambda>h. sum_list (map (\<lambda>q. aw ! l ! b ! h ! q ! t) [0..<T]))
       [0..<H])) [0..<k]) / Fin (real (k * H * T))"

section \<open>Example inputs\<close>

text \<open>
  The scenario of the specification: one layer, one head, two images of three tokens and
  four features. Every query row of image 0 is \<open>[0.5, 0.3, 0.2]\<close>, so that is also the
  mean over layers, heads and queries.
\<close>

definition scenario :: outputs where
  "scenario =
     \<lparr>hidden_states =
        [[[[Fin 1, Fin 1, Fin 1, Fin 1], [Fin 2, Fin 0, Fin 0, Fin 0], [Fin 0, Fin 2, Fin 0, Fin 0]],
          [[Fin 3, Fin 3, Fin 3, Fin 3], [Fin 4, Fin 0, Fin 0, Fin 0], [Fin 0, Fin 6, Fin 0, Fin 0]]]],
      attentions =
        [[[[[Fin (5 / 10), Fin (3 / 10), Fin (2 / 10)],
            [Fin (5 / 10), Fin (3 / 10), Fin (2 / 10)],
            [Fin (5 / 10), Fin (3 / 10), Fin (2 / 10)]]],
          [[[Fin (1 / 2), Fin (1 / 4), Fin (1 / 4)],
            [Fin (1 / 2), Fin (1 / 4), Fin (1 / 4)],
            [Fin (1 / 2), Fin (1 / 4), Fin (1 / 4)]]]]]\<rparr>"

text \<open>
  Three hidden-state layers and two attention layers of two heads, all different, for one
  image of two tokens and one feature: the window of the last two layers leaves the first
  hidden-state layer out.
\<close>

definition two_layers :: outputs where
  "two_layers =
     \<lparr>hidden_states =
        [[[[Fin 100], [Fin 200]]], [[[Fin 1], [Fin 2]]], [[[Fin 10], [Fin 20]]]],
      attentions =
        [[[[[Fin (1 / 10), Fin (9 / 10)], [Fin (2 / 10), Fin (8 / 10)]],
           [[Fin (3 / 10), Fin (7 / 10)], [Fin (4 / 10), Fin (6 / 10)]]]],
         [[[[Fin (5 / 10), Fin (5 / 10)], [Fin (6 / 10), Fin (4 / 10)]],
           [[Fin (7 / 10), Fin (3 / 10)], [Fin (8 / 10), Fin (2 / 10)]]]]]\<rparr>"

text \<open>
  A degenerate input: every query of image 1 puts all its attention on the class token.
\<close>

definition degenerate :: outputs where
  "degenerate =
     \<lparr>hidden_states =
        [[[[Fin 1, Fin 1], [Fin 2, Fin 0], [Fin 0, Fin 2]],
          [[Fin 3, Fin 3], [Fin 4, Fin 0], [Fin 0, Fin 6]]]],
      attentions =
        [[[[[Fin (1 / 2), Fin (1 / 4), Fin (1 / 4)],
            [Fin (1 / 2), Fin (1 / 4), Fin (1 / 4)],
            [Fin (1 / 2), Fin (1 / 4), Fin (1 / 4)]]],
          [[[Fin 1, Fin 0, Fin 0],
            [Fin 1, Fin 0, Fin 0],
            [Fin 1, Fin 0, Fin 0]]]]]\<rparr>"

text \<open>
  Two inputs of one image that differ in the hidden state of the class token alone: it is
  infinite in the first and finite in the second.
\<close>

definition infinite_class_token :: outputs where
  "infinite_class_token =
     \<lparr>hidden_states = [[[[PInf], [Fin 2]]]],
      attentions = [[[[[Fin (1 / 2), Fin (1 / 2)], [Fin (1 / 2), Fin (1 / 2)]]]]]\<rparr>"

definition finite_class_token :: outputs where
  "finite_class_token =
     \<lparr>hidden_states = [[[[Fin 7], [Fin 2]]]],
      attentions = [[[[[Fin (1 / 2), Fin (1 / 2)], [Fin (1 / 2), Fin (1 / 2)]]]]]\<rparr>"

text \<open>
  Windows that disagree on the batch axis: two images of hidden states against the
  attentions of one image, and three images against two.
\<close>

definition mismatched :: outputs where
  "mismatched =
     \<lparr>hidden_states = [[[[Fin 1], [Fin 5]], [[Fin 2], [Fin 7]]]],
      attentions = [[[[[Fin (1 / 2), Fin (1 / 2)], [Fin (1 / 2), Fin (1 / 2)]]]]]\<rparr>"

definition incompatible :: outputs where
  "incompatible =
     \<lparr>hidden_states = [[[[Fin 1], [Fin 5]], [[Fin 2], [Fin 7]], [[Fin 3], [Fin 9]]]],
      attentions =
        [[[[[Fin (1 / 2), Fin (1 / 2)], [Fin (1 / 2), Fin (1 / 2)]]],
          [[[Fin (1 / 2), Fin (1 / 2)], [Fin (1 / 2), Fin (1 / 2)]]]]]\<rparr>"

text \<open>
  An encoder for tests: an image is a number \<open>x\<close>, its hidden states are constant
  (two tokens, one feature, both \<open>x\<close> in the last layer) and its attention is uniform,
  so the embedding of the image is \<open>[x]\<close>.
\<close>

definition constant_encoder :: "(real, real list) imgbeddings" where
  "constant_encoder =
     \<lparr>square_pad = (\<lambda>x. x),
      processor = (\<lambda>xs. xs),
      model = (\<lambda>xs.
        \<lparr>hidden_states = [map (\<lambda>x. [[Fin 0], [Fin 0]]) xs, map (\<lambda>x. [[Fin x], [Fin x]]) xs],
         attentions = [map (\<lambda>x. [[[Fin (1 / 2), Fin (1 / 2)], [Fin (1 / 2), Fin (1 / 2)]]]) xs]\<rparr>)\<rparr>"

text \<open>The scenario's tensors in a store, and the outputs that refer to them.\<close>

definition scenario_store :: store where
  "scenario_store = [Rank3 (hd (hidden_states scenario)), Rank4 (hd (attentions scenario))]"

definition scenario_ref :: outputs_ref where
  "scenario_ref = \<lparr>hidden_states_ref = [0], attentions_ref = [1]\<rparr>"

section \<open>Properties\<close>

subsection \<open>Python and torch primitives on rectangular tensors\<close>


lemma collect_Inr:
  "(\<And>x. x \<in> set xs \<Longrightarrow> f x = Inr (g x)) \<Longrightarrow> collect f xs = Inr (map g xs)"
  by (induction xs) simp_all

lemma collect_first_Inl:
  "f x = Inl e \<Longrightarrow> collect f (x # xs) = Inl e"
  by simp

lemma upto_neg_rec: "[- int (Suc m)..- 1] = (- int (Suc m)) # [- int m..- 1]"
  by (subst upto.simps) simp

lemma last_layers_drop_nat:
  "m \<le> length xs \<Longrightarrow> collect (py_index xs) [- int m..- 1] = Inr (drop (length xs - m) xs)"
proof (induction m)
  case 0
  then show ?case by simp
next
  case (Suc m)
  have "nat (int (length xs) + (- 1 - int m)) = length xs - Suc m"
    using Suc.prems by linarith
  then have idx: "py_index xs (- int (Suc m)) = Inr (xs ! (length xs - Suc m))"
    using Suc.prems by (simp add: py_index_def)
  have "drop (length xs - Suc m) xs = xs ! (length xs - Suc m) # drop (Suc (length xs - Suc m)) xs"
    using Suc.prems by (intro Cons_nth_drop_Suc [symmetric]) simp
  moreover have "Suc (length xs - Suc m) = length xs - m"
    using Suc.prems by simp
  ultimately show ?case
    using Suc idx by (simp only: upto_neg_rec collect.simps sum.case)
qed

lemma last_layers_ok:
  assumes "1 \<le> k" and "k \<le> int (length xs)"
  shows "last_layers xs k = Inr (drop (length xs - nat k) xs)"
  using last_layers_drop_nat [of "nat k" xs] assms by (simp add: last_layers_def)

lemma last_layers_nonpos: "k \<le> 0 \<Longrightarrow> last_layers xs k = Inr []"
  by (simp add: last_layers_def)

lemma last_layers_too_many:
  assumes "int (length xs) < k"
  shows "last_layers xs k = Inl IndexError"
proof -
  have "[- k..- 1] = (- k) # [- k + 1..- 1]"
    using assms by (subst upto.simps) simp
  moreover have "py_index xs (- k) = Inl IndexError"
    using assms by (simp add: py_index_def)
  ultimately show ?thesis by (simp add: last_layers_def)
qed

lemma transpose_rect:
  assumes "rows \<noteq> []" and "\<And>r. r \<in> set rows \<Longrightarrow> length r = n"
  shows "transpose rows = map (\<lambda>c. map (\<lambda>r. r ! c) rows) [0..<n]"
proof -
  have col: "map (\<lambda>j. rows ! j ! c) [0..<length rows] = map (\<lambda>r. r ! c) rows" for c
    by (rule nth_equalityI) simp_all
  have "transpose rows = map (\<lambda>c. map (\<lambda>j. rows ! j ! c) [0..<length rows]) [0..<n]"
    using assms by (intro transpose_rectangle) simp_all
  then show ?thesis
    by (simp add: col)
qed

lemma reduce0_rect:
  assumes "xss \<noteq> []" and "\<And>r. r \<in> set xss \<Longrightarrow> length r = n"
  shows "reduce0 f xss = map (\<lambda>i. f (map (\<lambda>r. r ! i) xss)) [0..<n]"
  by (simp add: reduce0_def transpose_rect [OF assms] comp_def)

lemma has_shape2_iff:
  "has_shape2 m n x \<longleftrightarrow> length x = m \<and> (\<forall>r\<in>set x. length r = n)"
  by (simp add: has_shape2_def list_all_iff)

lemma has_shape3_iff:
  "has_shape3 b t d x \<longleftrightarrow> length x = b \<and> (\<forall>y\<in>set x. has_shape2 t d y)"
  by (simp add: has_shape3_def list_all_iff)

lemma has_shape4_iff:
  "has_shape4 b h q t x \<longleftrightarrow> length x = b \<and> (\<forall>y\<in>set x. has_shape3 h q t y)"
  by (simp add: has_shape4_def list_all_iff)

lemma has_shape2_nth: "has_shape2 m n x \<Longrightarrow> i < m \<Longrightarrow> length (x ! i) = n"
  by (simp add: has_shape2_iff)

lemma has_shape3_nth: "has_shape3 b t d x \<Longrightarrow> i < b \<Longrightarrow> has_shape2 t d (x ! i)"
  by (simp add: has_shape3_iff)

lemma has_shape4_nth: "has_shape4 b h q t x \<Longrightarrow> i < b \<Longrightarrow> has_shape3 h q t (x ! i)"
  by (simp add: has_shape4_iff)

lemma shape2_eq: "has_shape2 m n x \<Longrightarrow> 0 < m \<Longrightarrow> shape2 x = [m, n]"
  by (cases x) (auto simp: has_shape2_iff shape2_def shape1_def)

lemma shape3_eq: "has_shape3 b t d x \<Longrightarrow> 0 < b \<Longrightarrow> 0 < t \<Longrightarrow> shape3 x = [b, t, d]"
  by (cases x) (auto simp: has_shape3_iff shape3_def shape2_eq)

lemma shape4_eq:
  "has_shape4 b h q t x \<Longrightarrow> 0 < b \<Longrightarrow> 0 < h \<Longrightarrow> 0 < q \<Longrightarrow> shape4 x = [b, h, q, t]"
  by (cases x) (auto simp: has_shape4_iff shape4_def shape3_eq)

lemma torch_stack_same:
  assumes "ts \<noteq> []" and "\<And>t. t \<in> set ts \<Longrightarrow> shape t = s"
  shows "torch_stack shape ts = Inr ts"
  using assms by (cases ts) (auto simp: torch_stack_def list_all_iff)

lemma torch_sum0_rect:
  assumes ne: "ls \<noteq> []" and sh: "\<And>l. l \<in> set ls \<Longrightarrow> has_shape3 B T D l"
  shows "torch_sum0 ls =
    map (\<lambda>b. map (\<lambda>t. map (\<lambda>d. sum_list (map (\<lambda>l. l ! b ! t ! d) ls)) [0..<D]) [0..<T]) [0..<B]"
proof -
  have len0: "length l = B" if "l \<in> set ls" for l
    using sh [OF that] by (simp add: has_shape3_iff)
  have len1: "length (l ! b) = T" if "l \<in> set ls" "b < B" for l b
    using has_shape3_nth [OF sh] that by (simp add: has_shape2_iff)
  have len2: "length (l ! b ! t) = D" if "l \<in> set ls" "b < B" "t < T" for l b t
    using has_shape2_nth [OF has_shape3_nth [OF sh]] that by simp
  have inner: "reduce0 sum_list (map (\<lambda>r. r ! t) (map (\<lambda>l. l ! b) ls)) =
      map (\<lambda>d. sum_list (map (\<lambda>l. l ! b ! t ! d) ls)) [0..<D]" if "b < B" "t < T" for b t
  proof -
    have "reduce0 sum_list (map (\<lambda>l. l ! b ! t) ls) =
        map (\<lambda>d. sum_list (map (\<lambda>r. r ! d) (map (\<lambda>l. l ! b ! t) ls))) [0..<D]"
      using ne that by (intro reduce0_rect) (auto simp: len2)
    then show ?thesis by (simp add: comp_def)
  qed
  have mid: "reduce0 (reduce0 sum_list) (map (\<lambda>l. l ! b) ls) =
      map (\<lambda>t. map (\<lambda>d. sum_list (map (\<lambda>l. l ! b ! t ! d) ls)) [0..<D]) [0..<T]" if "b < B" for b
  proof -
    have "reduce0 (reduce0 sum_list) (map (\<lambda>l. l ! b) ls) =
        map (\<lambda>t. reduce0 sum_list (map (\<lambda>r. r ! t) (map (\<lambda>l. l ! b) ls))) [0..<T]"
      using ne that by (intro reduce0_rect) (auto simp: len1)
    also have "\<dots> = map (\<lambda>t. map (\<lambda>d. sum_list (map (\<lambda>l. l ! b ! t ! d) ls)) [0..<D]) [0..<T]"
      using that by (intro map_cong refl inner) simp_all
    finally show ?thesis .
  qed
  have "torch_sum0 ls = map (\<lambda>b. reduce0 (reduce0 sum_list) (map (\<lambda>l. l ! b) ls)) [0..<B]"
    unfolding torch_sum0_def using ne by (intro reduce0_rect) (auto simp: len0)
  also have "\<dots> = map (\<lambda>b. map (\<lambda>t. map (\<lambda>d. sum_list (map (\<lambda>l. l ! b ! t ! d) ls)) [0..<D]) [0..<T]) [0..<B]"
    by (intro map_cong refl mid) simp_all
  finally show ?thesis .
qed

lemma length_concat_rect:
  "(\<And>xs. xs \<in> set xss \<Longrightarrow> length xs = n) \<Longrightarrow> length (concat xss) = length xss * n"
  by (induction xss) simp_all

lemma sum_list_map_concat:
  fixes f :: "'a \<Rightarrow> fl"
  shows "sum_list (map f (concat xss)) = sum_list (map (\<lambda>xs. sum_list (map f xs)) xss)"
  by (induction xss) simp_all

lemma map_nth_upt: "map (\<lambda>i. f (xs ! i)) [0..<length xs] = map f xs"
  by (rule nth_equalityI) simp_all

lemma torch_mean123_rect:
  assumes ne: "as \<noteq> []" and sh: "\<And>l. l \<in> set as \<Longrightarrow> has_shape4 B H Q T l"
    and pos: "0 < H" "0 < Q"
  shows "torch_mean123 (torch_transpose10 as) =
    map (\<lambda>b. map (\<lambda>t. mean (map (\<lambda>r. r ! t) (concat (concat (map (\<lambda>l. l ! b) as))))) [0..<T])
      [0..<B]"
proof -
  have len0: "length l = B" if "l \<in> set as" for l
    using sh [OF that] by (simp add: has_shape4_iff)
  have s3: "has_shape3 H Q T (l ! b)" if "l \<in> set as" "b < B" for l b
    using has_shape4_nth [OF sh] that by simp
  have tr: "torch_transpose10 as = map (\<lambda>b. map (\<lambda>l. l ! b) as) [0..<B]"
    unfolding torch_transpose10_def using ne by (intro transpose_rect) (auto simp: len0)
  have rows: "reduce0 mean (concat (concat (map (\<lambda>l. l ! b) as))) =
      map (\<lambda>t. mean (map (\<lambda>r. r ! t) (concat (concat (map (\<lambda>l. l ! b) as))))) [0..<T]"
    if b: "b < B" for b
  proof (rule reduce0_rect)
    obtain l where l: "l \<in> set as" using ne by (cases as) auto
    from s3 [OF l b] pos obtain m where m: "m \<in> set (l ! b)"
      by (cases "l ! b") (auto simp: has_shape3_iff)
    with s3 [OF l b] pos obtain r where "r \<in> set m"
      by (cases m) (auto simp: has_shape3_iff has_shape2_iff)
    then have "m \<noteq> []" by auto
    with l m show "concat (concat (map (\<lambda>l. l ! b) as)) \<noteq> []" by auto
  next
    fix r assume "r \<in> set (concat (concat (map (\<lambda>l. l ! b) as)))"
    then obtain l m where "l \<in> set as" "m \<in> set (l ! b)" "r \<in> set m" by auto
    with s3 [of l b] b show "length r = T"
      by (auto simp: has_shape3_iff has_shape2_iff)
  qed
  show ?thesis
    unfolding tr torch_mean123_def by (simp add: comp_def rows cong: map_cong)
qed

lemma mean_rows_eq:
  assumes sh: "\<And>l. l \<in> set as \<Longrightarrow> has_shape4 B H Q T l" and b: "b < B"
  shows "mean (map (\<lambda>r. r ! t) (concat (concat (map (\<lambda>l. l ! b) as)))) =
    sum_list (map (\<lambda>l. sum_list (map (\<lambda>h. sum_list (map (\<lambda>q. as ! l ! b ! h ! q ! t) [0..<Q]))
       [0..<H])) [0..<length as]) / Fin (real (length as * H * Q))"
proof -
  have s3: "has_shape3 H Q T (l ! b)" if "l \<in> set as" for l
    using has_shape4_nth [OF sh] that b by simp
  have lenH: "length (l ! b) = H" if "l \<in> set as" for l
    using s3 [OF that] by (simp add: has_shape3_iff)
  have lenQ: "length m = Q" if "l \<in> set as" "m \<in> set (l ! b)" for l m
    using s3 [OF that(1)] that(2) by (simp add: has_shape3_iff has_shape2_iff)
  have "length (concat (map (\<lambda>l. l ! b) as)) = length (map (\<lambda>l. l ! b) as) * H"
    by (rule length_concat_rect) (auto simp: lenH)
  moreover have "length (concat (concat (map (\<lambda>l. l ! b) as))) =
      length (concat (map (\<lambda>l. l ! b) as)) * Q"
    by (rule length_concat_rect) (auto simp: lenQ)
  ultimately have len: "length (concat (concat (map (\<lambda>l. l ! b) as))) = length as * H * Q"
    by simp
  have q: "sum_list (map (\<lambda>r. r ! t) m) = sum_list (map (\<lambda>q. m ! q ! t) [0..<Q])"
    if "l \<in> set as" "m \<in> set (l ! b)" for l m
    using map_nth_upt [of "\<lambda>r. r ! t" m] lenQ [OF that] by simp
  have h: "sum_list (map (\<lambda>m. sum_list (map (\<lambda>r. r ! t) m)) (l ! b)) =
      sum_list (map (\<lambda>h. sum_list (map (\<lambda>q. l ! b ! h ! q ! t) [0..<Q])) [0..<H])"
    if l: "l \<in> set as" for l
  proof -
    have "map (\<lambda>m. sum_list (map (\<lambda>r. r ! t) m)) (l ! b) =
        map (\<lambda>m. sum_list (map (\<lambda>q. m ! q ! t) [0..<Q])) (l ! b)"
      by (intro map_cong refl q [OF l])
    also have "\<dots> = map (\<lambda>h. sum_list (map (\<lambda>q. l ! b ! h ! q ! t) [0..<Q])) [0..<H]"
      using map_nth_upt [of "\<lambda>m. sum_list (map (\<lambda>q. m ! q ! t) [0..<Q])" "l ! b"] lenH [OF l]
      by simp
    finally show ?thesis by simp
  qed
  have "sum_list (map (\<lambda>r. r ! t) (concat (concat (map (\<lambda>l. l ! b) as)))) =
      sum_list (map (\<lambda>l. sum_list (map (\<lambda>m. sum_list (map (\<lambda>r. r ! t) m)) (l ! b))) as)"
    by (simp add: sum_list_map_concat comp_def)
  also have "\<dots> = sum_list (map (\<lambda>l. sum_list (map (\<lambda>h. sum_list (map (\<lambda>q. l ! b ! h ! q ! t) [0..<Q])) [0..<H])) as)"
    by (intro arg_cong [where f = sum_list] map_cong refl h)
  also have "\<dots> = sum_list (map (\<lambda>l. sum_list (map (\<lambda>h. sum_list (map (\<lambda>q. as ! l ! b ! h ! q ! t) [0..<Q])) [0..<H])) [0..<length as])"
    using map_nth_upt [of "\<lambda>l. sum_list (map (\<lambda>h. sum_list (map (\<lambda>q. l ! b ! h ! q ! t) [0..<Q])) [0..<H])" as]
    by simp
  finally show ?thesis
    by (simp add: mean_def len)
qed

lemma set_column0_ok:
  assumes "has_shape2 B T x" and "0 < T"
  shows "set_column0 x = Inr (map (\<lambda>r. r[0 := Fin 0]) x)"
  using assms by (auto simp: set_column0_def has_shape2_iff list_ex_iff)

lemma reweight_ok:
  assumes "has_shape2 B T x" and "0 < T"
  shows "reweight x = Inr (map (\<lambda>r. map (\<lambda>a. a / sum_list (r[0 := Fin 0])) (r[0 := Fin 0])) x)"
  by (simp add: reweight_def set_column0_ok [OF assms] div_row_sum_def comp_def)

lemma broadcast_same: "length xs = length ys \<Longrightarrow> broadcast xs ys = Inr (zip xs ys)"
  by (simp add: broadcast_def)

lemma broadcast_mismatch:
  "length xs \<noteq> length ys \<Longrightarrow> length xs \<noteq> 1 \<Longrightarrow> length ys \<noteq> 1 \<Longrightarrow>
    broadcast xs ys = Inl RuntimeError"
  by (simp add: broadcast_def)

lemma mul_unsqueeze2_same:
  assumes h: "has_shape3 B T D hs" and w: "has_shape2 B T w"
  shows "mul_unsqueeze2 hs w =
    Inr (map (\<lambda>b. map (\<lambda>t. map (\<lambda>x. x * w ! b ! t) (hs ! b ! t)) [0..<T]) [0..<B])"
proof -
  have lh: "length hs = B" and lw: "length w = B"
    using h w by (simp_all add: has_shape3_iff has_shape2_iff)
  have inner: "(case broadcast hb wb of Inl e \<Rightarrow> Inl e
       | Inr ts \<Rightarrow> Inr (map (\<lambda>(ht, a). map (\<lambda>x. x * a) ht) ts)) =
      Inr (map (\<lambda>t. map (\<lambda>x. x * wb ! t) (hb ! t)) [0..<T])"
    if "(hb, wb) \<in> set (zip hs w)" for hb wb
  proof -
    from that have "hb \<in> set hs" "wb \<in> set w" by (auto dest: set_zip_leftD set_zip_rightD)
    then have l: "length hb = T" "length wb = T"
      using h w by (auto simp: has_shape3_iff has_shape2_iff)
    have "map (\<lambda>(ht, a). map (\<lambda>x. x * a) ht) (zip hb wb) =
        map (\<lambda>t. map (\<lambda>x. x * wb ! t) (hb ! t)) [0..<T]"
      by (rule nth_equalityI) (simp_all add: l)
    then show ?thesis by (simp add: broadcast_same l)
  qed
  have "mul_unsqueeze2 hs w =
      collect (\<lambda>(hb, wb). case broadcast hb wb of Inl e \<Rightarrow> Inl e
         | Inr ts \<Rightarrow> Inr (map (\<lambda>(ht, a). map (\<lambda>x. x * a) ht) ts)) (zip hs w)"
    by (simp add: mul_unsqueeze2_def broadcast_same lh lw)
  also have "\<dots> = Inr (map (\<lambda>(hb, wb). map (\<lambda>t. map (\<lambda>x. x * wb ! t) (hb ! t)) [0..<T]) (zip hs w))"
    by (rule collect_Inr) (auto simp: inner)
  also have "map (\<lambda>(hb, wb). map (\<lambda>t. map (\<lambda>x. x * wb ! t) (hb ! t)) [0..<T]) (zip hs w) =
      map (\<lambda>b. map (\<lambda>t. map (\<lambda>x. x * w ! b ! t) (hs ! b ! t)) [0..<T]) [0..<B]"
    by (rule nth_equalityI) (simp_all add: lh lw)
  finally show ?thesis .
qed

lemma torch_sum1_weighted:
  assumes h: "has_shape3 B T D hs" and T: "0 < T"
  shows "torch_sum1 (map (\<lambda>b. map (\<lambda>t. map (\<lambda>x. x * w ! b ! t) (hs ! b ! t)) [0..<T]) [0..<B]) =
    map (\<lambda>b. map (\<lambda>d. sum_list (map (\<lambda>t. hs ! b ! t ! d * w ! b ! t) [0..<T])) [0..<D]) [0..<B]"
proof -
  have len: "length (hs ! b ! t) = D" if "b < B" "t < T" for b t
    using has_shape2_nth [OF has_shape3_nth [OF h]] that by simp
  have row: "reduce0 sum_list (map (\<lambda>t. map (\<lambda>x. x * w ! b ! t) (hs ! b ! t)) [0..<T]) =
      map (\<lambda>d. sum_list (map (\<lambda>t. hs ! b ! t ! d * w ! b ! t) [0..<T])) [0..<D]"
    if b: "b < B" for b
  proof -
    have "reduce0 sum_list (map (\<lambda>t. map (\<lambda>x. x * w ! b ! t) (hs ! b ! t)) [0..<T]) =
        map (\<lambda>d. sum_list (map (\<lambda>r. r ! d) (map (\<lambda>t. map (\<lambda>x. x * w ! b ! t) (hs ! b ! t)) [0..<T])))
          [0..<D]"
      using T b by (intro reduce0_rect) (auto simp: len)
    also have "\<dots> = map (\<lambda>d. sum_list (map (\<lambda>t. hs ! b ! t ! d * w ! b ! t) [0..<T])) [0..<D]"
      using b by (intro map_cong refl arg_cong [where f = sum_list]) (simp add: len)
    finally show ?thesis .
  qed
  show ?thesis
    by (simp add: torch_sum1_def comp_def row cong: map_cong)
qed

lemma length_window_of: "k \<le> int (length xs) \<Longrightarrow> 0 \<le> k \<Longrightarrow> length (window_of xs k) = nat k"
  by (simp add: window_of_def)

lemma window_of_ne: "k \<le> int (length xs) \<Longrightarrow> 1 \<le> k \<Longrightarrow> window_of xs k \<noteq> []"
  using length_window_of [of k xs] by auto

lemma last_layers_window:
  "1 \<le> k \<Longrightarrow> k \<le> int (length xs) \<Longrightarrow> last_layers xs k = Inr (window_of xs k)"
  by (simp add: last_layers_ok window_of_def)

lemma hidden_states_sum_window:
  assumes "window outs k B T D B' H T'"
  shows "hidden_states_sum outs k =
    Inr (map (\<lambda>b. map (\<lambda>t. map (\<lambda>d.
      sum_list (map (\<lambda>l. l ! b ! t ! d) (window_of (hidden_states outs) k))) [0..<D]) [0..<T]) [0..<B])"
proof -
  let ?ls = "window_of (hidden_states outs) k"
  from assms have k: "1 \<le> k" "k \<le> int (length (hidden_states outs))"
    and pos: "0 < B" "0 < T"
    and sh: "\<And>l. l \<in> set ?ls \<Longrightarrow> has_shape3 B T D l"
    by (auto simp: window_def list_all_iff)
  have ne: "?ls \<noteq> []" using k by (intro window_of_ne)
  have "torch_stack shape3 ?ls = Inr ?ls"
    using ne shape3_eq [OF sh pos] by (rule torch_stack_same)
  then show ?thesis
    by (simp add: hidden_states_sum_def last_layers_window k torch_sum0_rect [OF ne sh])
qed

lemma attentions_reduced_window:
  assumes "window outs k B T D B' H T'"
  shows "attentions_reduced outs k =
    Inr (map (\<lambda>b. map (\<lambda>t. key_importance (nat k) H T' (window_of (attentions outs) k) b t)
      [0..<T']) [0..<B'])"
proof -
  let ?as = "window_of (attentions outs) k"
  from assms have k: "1 \<le> k" "k \<le> int (length (attentions outs))"
    and pos: "0 < B'" "0 < H" "0 < T'"
    and sh: "\<And>l. l \<in> set ?as \<Longrightarrow> has_shape4 B' H T' T' l"
    by (auto simp: window_def list_all_iff)
  have ne: "?as \<noteq> []" using k by (intro window_of_ne)
  have len: "length ?as = nat k" using k by (intro length_window_of) simp_all
  have "torch_stack shape4 ?as = Inr ?as"
    using ne shape4_eq [OF sh pos] by (rule torch_stack_same)
  moreover have "map (\<lambda>b. map (\<lambda>t. mean (map (\<lambda>r. r ! t) (concat (concat (map (\<lambda>l. l ! b) ?as))))) [0..<T']) [0..<B']
      = map (\<lambda>b. map (\<lambda>t. key_importance (nat k) H T' ?as b t) [0..<T']) [0..<B']"
    by (intro map_cong refl) (simp add: mean_rows_eq [OF sh] key_importance_def len)
  ultimately show ?thesis
    by (simp add: attentions_reduced_def last_layers_window k
        torch_mean123_rect [OF ne sh pos(2,3)])
qed

lemma layer_sum_eq: "layer_sum hw b t d = sum_list (map (\<lambda>l. l ! b ! t ! d) hw)"
  using map_nth_upt [of "\<lambda>l. l ! b ! t ! d" hw] by (simp add: layer_sum_def)

lemma valid_windowD: "valid_window outs k B T D H \<Longrightarrow> window outs k B T D B H T"
  by (simp add: valid_window_def)

lemma attentions_reweighted_window:
  assumes win: "window outs k B T D B' H T'" and ar: "attentions_reduced outs k = Inr ar"
  shows "has_shape2 B' T' ar"
    and "attentions_reweighted outs k =
      Inr (map (\<lambda>r. map (\<lambda>a. a / sum_list (r[0 := Fin 0])) (r[0 := Fin 0])) ar)"
proof -
  show sh: "has_shape2 B' T' ar"
    using ar by (auto simp: attentions_reduced_window [OF win] has_shape2_iff)
  from win have "0 < T'" by (simp add: window_def)
  from reweight_ok [OF sh this] show "attentions_reweighted outs k =
      Inr (map (\<lambda>r. map (\<lambda>a. a / sum_list (r[0 := Fin 0])) (r[0 := Fin 0])) ar)"
    by (simp add: attentions_reweighted_def ar)
qed

lemma reducer_valid:
  assumes win: "valid_window outs k B T D H"
    and hs: "hidden_states_sum outs k = Inr hs"
    and w: "attentions_reweighted outs k = Inr w"
  shows "reducer outs k =
    Inr (map (\<lambda>b. map (\<lambda>d. sum_list (map (\<lambda>t. hs ! b ! t ! d * w ! b ! t) [0..<T])) [0..<D]) [0..<B])"
proof -
  note win' = valid_windowD [OF win]
  have shh: "has_shape3 B T D hs"
    using hs by (auto simp: hidden_states_sum_window [OF win'] has_shape3_iff has_shape2_iff)
  obtain ar where ar: "attentions_reduced outs k = Inr ar"
    by (simp add: attentions_reduced_window [OF win'])
  have shw: "has_shape2 B T w"
    using w attentions_reweighted_window [OF win' ar]
    by (auto simp: has_shape2_iff)
  from win' have T: "0 < T" by (simp add: window_def)
  show ?thesis
    by (simp add: reducer_def hs w mul_unsqueeze2_same [OF shh shw] torch_sum1_weighted [OF shh T])
qed

lemma reducer_valid_ex:
  assumes win: "valid_window outs k B T D H"
  shows "\<exists>emb. reducer outs k = Inr emb \<and> has_shape2 B D emb"
proof -
  note win' = valid_windowD [OF win]
  obtain hs where hs: "hidden_states_sum outs k = Inr hs"
    by (simp add: hidden_states_sum_window [OF win'])
  obtain ar where ar: "attentions_reduced outs k = Inr ar"
    by (simp add: attentions_reduced_window [OF win'])
  note w = attentions_reweighted_window(2) [OF win' ar]
  show ?thesis
    by (simp add: reducer_valid [OF win hs w] has_shape2_iff)
qed

subsection \<open>Arithmetic of tensor elements\<close>

lemma sum_list_Fin: "sum_list (map Fin rs) = Fin (sum_list rs)"
  by (induction rs) (simp_all add: zero_fl_def)

lemma fl_add_Fin_cases: "x + y = Fin s \<Longrightarrow> is_fin x \<and> is_fin y" for x y :: fl
  by (cases x; cases y) simp_all

lemma sum_list_Fin_all: "sum_list xs = Fin s \<Longrightarrow> \<forall>x\<in>set xs. is_fin x"
proof (induction xs arbitrary: s)
  case Nil
  then show ?case by simp
next
  case (Cons x xs)
  from Cons.prems have xy: "is_fin x \<and> is_fin (sum_list xs)"
    by (intro fl_add_Fin_cases [of x "sum_list xs" s]) simp
  then obtain s' where "sum_list xs = Fin s'" by (cases "sum_list xs") simp_all
  with Cons.IH xy show ?case by simp
qed

lemma all_fin_map: "\<forall>x\<in>set xs. is_fin x \<Longrightarrow> \<exists>rs. xs = map Fin rs"
proof (induction xs)
  case Nil
  then show ?case by simp
next
  case (Cons x xs)
  then obtain rs where "xs = map Fin rs" by auto
  moreover from Cons.prems obtain r where "x = Fin r" by (cases x) simp_all
  ultimately have "x # xs = map Fin (r # rs)" by simp
  then show ?case by (rule exI)
qed

lemma sum_list_divide_real: "sum_list (map (\<lambda>r. r / s) rs) = sum_list rs / (s::real)"
  by (induction rs) (simp_all add: add_divide_distrib)

lemma fl_mult_NaN: "x * NaN = NaN" for x :: fl
  by (cases x) simp_all

lemma sum_list_NaN: "xs \<noteq> [] \<Longrightarrow> sum_list (map (\<lambda>_. NaN) xs) = NaN"
  by (induction xs) simp_all

lemma sum_list_replicate_zero: "sum_list (replicate n (Fin 0)) = Fin 0"
  by (induction n) (simp_all add: zero_fl_def)

subsection \<open>Evaluation on concrete inputs\<close>

lemmas eval_defs = reducer_def hidden_states_sum_def attentions_reweighted_def
  attentions_reduced_def reweight_def last_layers_def py_index_def upto.simps torch_stack_def
  shape4_def shape3_def shape2_def shape1_def torch_sum0_def reduce0_def torch_transpose10_def
  torch_mean123_def mean_def set_column0_def div_row_sum_def mul_unsqueeze2_def broadcast_def
  torch_sum1_def zero_fl_def

lemmas shape_defs = valid_window_def window_def window_of_def has_shape4_def has_shape3_def
  has_shape2_def

subsection \<open>Steps 1 and 2: the sum over layers and the mean attention\<close>

text \<open>
  Claim C4. In a valid window the first step succeeds, its result has shape (B, T, D),
  and every entry is the sum (not the mean) of that entry over the \<open>k\<close> selected layers.
\<close>

theorem hidden_states_summed_over_layers:
  assumes "valid_window outs k B T D H"
  shows "\<exists>hs. hidden_states_sum outs k = Inr hs \<and> has_shape3 B T D hs \<and>
    (\<forall>b<B. \<forall>t<T. \<forall>d<D. hs ! b ! t ! d = layer_sum (window_of (hidden_states outs) k) b t d)"
  by (simp add: hidden_states_sum_window [OF valid_windowD [OF assms]] layer_sum_eq
      has_shape3_iff has_shape2_iff)

theorem hidden_states_summed_over_layers_witness:
  "valid_window two_layers 2 1 2 1 2 \<and>
   (\<exists>hs. hidden_states_sum two_layers 2 = Inr hs \<and> has_shape3 1 2 1 hs \<and>
      hs ! 0 ! 1 ! 0 = layer_sum (window_of (hidden_states two_layers) 2) 0 1 0 \<and>
      hs ! 0 ! 1 ! 0 = Fin 22)"
proof -
  have v: "valid_window two_layers 2 1 2 1 2"
    by (simp add: shape_defs two_layers_def)
  have "layer_sum (window_of (hidden_states two_layers) 2) 0 1 0 = Fin 22"
    by (simp add: layer_sum_def window_of_def two_layers_def zero_fl_def upt_rec)
  with hidden_states_summed_over_layers [OF v] v show ?thesis
    by auto
qed

text \<open>
  Claim C5. In a valid window the second step succeeds, its result has shape (B, T), and
  entry (b, t) is the attention that key token \<open>t\<close> of image \<open>b\<close> receives, averaged
  over the layers, the heads and the query positions.
\<close>

theorem attentions_averaged_over_layers_heads_queries:
  assumes "valid_window outs k B T D H"
  shows "\<exists>ar. attentions_reduced outs k = Inr ar \<and> has_shape2 B T ar \<and>
    (\<forall>b<B. \<forall>t<T. ar ! b ! t = key_importance (nat k) H T (window_of (attentions outs) k) b t)"
  by (simp add: attentions_reduced_window [OF valid_windowD [OF assms]] has_shape2_iff)

theorem attentions_averaged_over_layers_heads_queries_witness:
  "valid_window two_layers 2 1 2 1 2 \<and>
   (\<exists>ar. attentions_reduced two_layers 2 = Inr ar \<and> has_shape2 1 2 ar \<and>
      ar ! 0 ! 0 = key_importance 2 2 2 (window_of (attentions two_layers) 2) 0 0 \<and>
      ar ! 0 ! 0 = Fin (45 / 100))"
proof -
  have v: "valid_window two_layers 2 1 2 1 2"
    by (simp add: shape_defs two_layers_def)
  have "key_importance 2 2 2 (window_of (attentions two_layers) 2) 0 0 = Fin (45 / 100)"
    by (simp add: key_importance_def window_of_def two_layers_def zero_fl_def upt_rec)
  with attentions_averaged_over_layers_heads_queries [OF v] v show ?thesis
    by auto
qed

subsection \<open>Steps 3 to 5: the weights and the weighted sum\<close>

text \<open>
  Claim C6, as the code has it. In a valid window, for an image \<open>b\<close> whose row of
  importances has a finite sum other than zero once the class token's entry is set to
  zero, the weights of the image have one entry per token, the class token's weight is 0
  and the weights sum to 1. The Reducer succeeds, and when the class token's summed hidden
  state is finite every entry of the image's embedding is the weighted sum over the patch
  tokens 1 to T - 1 alone.
\<close>

theorem class_token_weight_zero_and_weights_sum_to_one:
  assumes win: "valid_window outs k B T D H"
    and b: "b < B"
    and ar: "attentions_reduced outs k = Inr ar"
    and nd: "sum_list ((ar ! b)[0 := Fin 0]) = Fin s" "s \<noteq> 0"
    and hs: "hidden_states_sum outs k = Inr hs"
  shows "\<exists>w emb. attentions_reweighted outs k = Inr w \<and> length (w ! b) = T \<and>
      w ! b ! 0 = Fin 0 \<and> sum_list (w ! b) = Fin 1 \<and>
      reducer outs k = Inr emb \<and>
      (list_all is_fin (hs ! b ! 0) \<longrightarrow>
        (\<forall>d<D. emb ! b ! d = sum_list (map (\<lambda>t. hs ! b ! t ! d * w ! b ! t) [1..<T])))"
proof -
  note win' = valid_windowD [OF win]
  from win have T: "0 < T" by (simp add: valid_window_def)
  define z where "z = (ar ! b)[0 := Fin 0]"
  define w where "w = map (\<lambda>r. map (\<lambda>a. a / sum_list (r[0 := Fin 0])) (r[0 := Fin 0])) ar"
  have shar: "has_shape2 B T ar" and w: "attentions_reweighted outs k = Inr w"
    using attentions_reweighted_window [OF win' ar] by (simp_all add: w_def)
  have lenar: "length ar = B" and lenz: "length z = T"
    using shar b by (simp_all add: has_shape2_iff z_def)
  from sum_list_Fin_all [OF nd(1)] obtain rs where rs: "z = map Fin rs"
    unfolding z_def [symmetric] using all_fin_map by blast
  have lenrs: "length rs = T" using lenz rs by simp
  have srs: "sum_list rs = s"
    using nd(1) by (simp add: z_def [symmetric] rs sum_list_Fin)
  have "z ! 0 = Fin 0" using T lenz by (simp add: z_def)
  then have rs0: "rs ! 0 = 0" using T lenrs by (simp add: rs)
  have wb: "w ! b = map (\<lambda>r. Fin (r / s)) rs"
    using b lenar nd by (simp add: w_def z_def [symmetric]) (simp add: rs)
  have w0: "w ! b ! 0 = Fin 0" using T lenrs rs0 by (simp add: wb)
  have "sum_list (w ! b) = Fin (sum_list (map (\<lambda>r. r / s) rs))"
    using sum_list_Fin [of "map (\<lambda>r. r / s) rs"] by (simp add: wb comp_def)
  then have wsum: "sum_list (w ! b) = Fin 1"
    using nd(2) by (simp add: sum_list_divide_real srs)
  define emb where
    "emb = map (\<lambda>b. map (\<lambda>d. sum_list (map (\<lambda>t. hs ! b ! t ! d * w ! b ! t) [0..<T])) [0..<D]) [0..<B]"
  have emb: "reducer outs k = Inr emb"
    using reducer_valid [OF win hs w] by (simp add: emb_def)
  have "emb ! b ! d = sum_list (map (\<lambda>t. hs ! b ! t ! d * w ! b ! t) [1..<T])"
    if fin: "list_all is_fin (hs ! b ! 0)" and d: "d < D" for d
  proof -
    have "has_shape3 B T D hs"
      using hs by (auto simp: hidden_states_sum_window [OF win'] has_shape3_iff has_shape2_iff)
    then have "length (hs ! b ! 0) = D"
      using b T by (intro has_shape2_nth [OF has_shape3_nth])
    with fin d have "is_fin (hs ! b ! 0 ! d)" by (simp add: list_all_length)
    then obtain h where h: "hs ! b ! 0 ! d = Fin h" by (cases "hs ! b ! 0 ! d") auto
    have "[0..<T] = 0 # [1..<T]" using T by (simp add: upt_conv_Cons)
    then have "emb ! b ! d = hs ! b ! 0 ! d * w ! b ! 0 + sum_list (map (\<lambda>t. hs ! b ! t ! d * w ! b ! t) [1..<T])"
      using b d by (simp add: emb_def)
    also have "hs ! b ! 0 ! d * w ! b ! 0 = 0" by (simp add: h w0 zero_fl_def)
    finally show ?thesis by simp
  qed
  with w wb lenrs w0 wsum emb show ?thesis by auto
qed

theorem class_token_weight_zero_and_weights_sum_to_one_witness:
  "valid_window scenario 1 2 3 4 1 \<and>
   attentions_reduced scenario 1 =
     Inr [[Fin (1 / 2), Fin (3 / 10), Fin (1 / 5)], [Fin (1 / 2), Fin (1 / 4), Fin (1 / 4)]] \<and>
   sum_list ([Fin (1 / 2), Fin (3 / 10), Fin (1 / 5)][0 := Fin 0]) = Fin (1 / 2) \<and>
   list_all is_fin (hd (hidden_states scenario) ! 0 ! 0) \<and>
   (\<exists>w emb. attentions_reweighted scenario 1 = Inr w \<and> length (w ! 0) = 3 \<and>
      w ! 0 ! 0 = Fin 0 \<and> sum_list (w ! 0) = Fin 1 \<and> reducer scenario 1 = Inr emb \<and>
      emb ! 0 ! 1 =
        sum_list (map (\<lambda>t. hd (hidden_states scenario) ! 0 ! t ! 1 * w ! 0 ! t) [1..<3]))"
proof -
  have v: "valid_window scenario 1 2 3 4 1"
    by (simp add: shape_defs scenario_def)
  have ar: "attentions_reduced scenario 1 =
      Inr [[Fin (1 / 2), Fin (3 / 10), Fin (1 / 5)], [Fin (1 / 2), Fin (1 / 4), Fin (1 / 4)]]"
    by (simp add: eval_defs scenario_def)
  have hs: "hidden_states_sum scenario 1 = Inr (hd (hidden_states scenario))"
    by (simp add: eval_defs scenario_def)
  have nd: "sum_list (([[Fin (1 / 2), Fin (3 / 10), Fin (1 / 5)], [Fin (1 / 2), Fin (1 / 4), Fin (1 / 4)]] ! 0)[0 := Fin 0]) = Fin (1 / 2)"
    by (simp add: zero_fl_def)
  have fin: "list_all is_fin (hd (hidden_states scenario) ! 0 ! 0)"
    by (simp add: scenario_def)
  have b: "(0::nat) < 2" by simp
  from class_token_weight_zero_and_weights_sum_to_one [OF v b ar nd _ hs] v ar nd fin
  show ?thesis
    by auto
qed

text \<open>
  The claim as the specification states it, for every valid input, fails: the product of
  line 99 multiplies the class token's hidden state by its weight 0, and an infinite
  hidden state times 0 is NaN. With an infinite class-token state the window is valid, the
  weights are \<open>[0, 1]\<close> and the sum over the patch token alone is 2, yet the embedding is
  NaN; with a finite class-token state and the same attentions it is 2.
\<close>

theorem infinite_class_token_counterexample:
  "valid_window infinite_class_token 1 1 2 1 1 \<and>
   attentions_reduced infinite_class_token 1 = Inr [[Fin (1 / 2), Fin (1 / 2)]] \<and>
   sum_list ([Fin (1 / 2), Fin (1 / 2)][0 := Fin 0]) = Fin (1 / 2) \<and>
   attentions_reweighted infinite_class_token 1 = Inr [[Fin 0, Fin 1]] \<and>
   hidden_states_sum infinite_class_token 1 = Inr [[[PInf], [Fin 2]]] \<and>
   reducer infinite_class_token 1 = Inr [[NaN]] \<and>
   sum_list (map (\<lambda>t. [[[PInf], [Fin 2]]] ! 0 ! t ! 0 * [[Fin 0, Fin 1]] ! 0 ! t) [1..<2]) = Fin 2 \<and>
   attentions finite_class_token = attentions infinite_class_token \<and>
   reducer finite_class_token 1 = Inr [[Fin 2]]"
  by (simp add: shape_defs eval_defs infinite_class_token_def finite_class_token_def upt_rec)

text \<open>
  Claim C8. In a valid window, for an image \<open>b\<close> whose row of importances is all zero
  once the class token's entry is set to zero, the Reducer raises no error: the division
  is by zero, every weight of the image is NaN, and the Reducer returns an embedding for the
  whole batch in which every entry of the image's row is NaN.
\<close>

theorem zero_denominator_gives_nan_without_error:
  assumes win: "valid_window outs k B T D H"
    and b: "b < B"
    and ar: "attentions_reduced outs k = Inr ar"
    and zero: "(ar ! b)[0 := Fin 0] = replicate T (Fin 0)"
  shows "\<exists>w emb. attentions_reweighted outs k = Inr w \<and> (\<forall>t<T. w ! b ! t = NaN) \<and>
      reducer outs k = Inr emb \<and> length emb = B \<and> (\<forall>d<D. emb ! b ! d = NaN)"
proof -
  note win' = valid_windowD [OF win]
  from win have T: "0 < T" by (simp add: valid_window_def)
  define w where "w = map (\<lambda>r. map (\<lambda>a. a / sum_list (r[0 := Fin 0])) (r[0 := Fin 0])) ar"
  have shar: "has_shape2 B T ar" and w: "attentions_reweighted outs k = Inr w"
    using attentions_reweighted_window [OF win' ar] by (simp_all add: w_def)
  have lenar: "length ar = B" and lenb: "length (ar ! b) = T"
    using shar b by (simp_all add: has_shape2_iff)
  have wb: "w ! b = replicate T NaN"
    using b lenar by (simp add: w_def zero sum_list_replicate_zero)
  obtain hs where hs: "hidden_states_sum outs k = Inr hs"
    by (simp add: hidden_states_sum_window [OF win'])
  define emb where
    "emb = map (\<lambda>b. map (\<lambda>d. sum_list (map (\<lambda>t. hs ! b ! t ! d * w ! b ! t) [0..<T])) [0..<D]) [0..<B]"
  have emb: "reducer outs k = Inr emb"
    using reducer_valid [OF win hs w] by (simp add: emb_def)
  have "emb ! b ! d = NaN" if d: "d < D" for d
  proof -
    have "emb ! b ! d = sum_list (map (\<lambda>t. hs ! b ! t ! d * w ! b ! t) [0..<T])"
      using b d by (simp add: emb_def)
    also have "map (\<lambda>t. hs ! b ! t ! d * w ! b ! t) [0..<T] = map (\<lambda>_. NaN) [0..<T]"
      by (rule map_cong) (simp_all add: wb fl_mult_NaN)
    also have "sum_list (map (\<lambda>_. NaN) [0..<T]) = NaN"
      using T by (intro sum_list_NaN) simp
    finally show ?thesis .
  qed
  moreover have "length emb = B" by (simp add: emb_def)
  ultimately show ?thesis using w wb emb by auto
qed

theorem zero_denominator_gives_nan_without_error_witness:
  "valid_window degenerate 1 2 3 2 1 \<and>
   attentions_reduced degenerate 1 =
     Inr [[Fin (1 / 2), Fin (1 / 4), Fin (1 / 4)], [Fin 1, Fin 0, Fin 0]] \<and>
   (\<exists>w emb. attentions_reweighted degenerate 1 = Inr w \<and> w ! 1 ! 2 = NaN \<and>
      reducer degenerate 1 = Inr emb \<and> length emb = 2 \<and> emb ! 1 ! 0 = NaN)"
proof -
  have v: "valid_window degenerate 1 2 3 2 1"
    by (simp add: shape_defs degenerate_def)
  have ar: "attentions_reduced degenerate 1 =
      Inr [[Fin (1 / 2), Fin (1 / 4), Fin (1 / 4)], [Fin 1, Fin 0, Fin 0]]"
    by (simp add: eval_defs degenerate_def)
  have z: "([[Fin (1 / 2), Fin (1 / 4), Fin (1 / 4)], [Fin 1, Fin 0, Fin 0]] ! 1)[0 := Fin 0] =
      replicate 3 (Fin 0)"
    by (simp add: numeral_3_eq_3)
  have b: "(1::nat) < 2" by simp
  from zero_denominator_gives_nan_without_error [OF v b ar z] v ar
  show ?thesis
    by auto
qed

text \<open>
  Claim C1. The scenario of the specification: with one layer, one head, two images,
  three tokens and four features, when the summed hidden states of image 0 are
  \<open>[[1,1,1,1],[2,0,0,0],[0,2,0,0]]\<close> and its importances after averaging are
  \<open>[0.5, 0.3, 0.2]\<close>, the class token's entry is set to zero, the weights of image 0
  are \<open>[0, 0.6, 0.4]\<close> and row 0 of the embeddings is \<open>[1.2, 0.8, 0, 0]\<close>.
\<close>

theorem scenario_embedding_row:
  assumes win: "valid_window outs 1 2 3 4 1"
    and hs: "hidden_states_sum outs 1 = Inr hs"
    and hs0: "hs ! 0 =
      [[Fin 1, Fin 1, Fin 1, Fin 1], [Fin 2, Fin 0, Fin 0, Fin 0], [Fin 0, Fin 2, Fin 0, Fin 0]]"
    and ar: "attentions_reduced outs 1 = Inr ar"
    and ar0: "ar ! 0 = [Fin (5 / 10), Fin (3 / 10), Fin (2 / 10)]"
  shows "\<exists>z w emb. set_column0 ar = Inr z \<and> z ! 0 = [Fin 0, Fin (3 / 10), Fin (2 / 10)] \<and>
      attentions_reweighted outs 1 = Inr w \<and> w ! 0 = [Fin 0, Fin (6 / 10), Fin (4 / 10)] \<and>
      reducer outs 1 = Inr emb \<and> length emb = 2 \<and>
      emb ! 0 = [Fin (12 / 10), Fin (8 / 10), Fin 0, Fin 0]"
proof -
  note win' = valid_windowD [OF win]
  define w where "w = map (\<lambda>r. map (\<lambda>a. a / sum_list (r[0 := Fin 0])) (r[0 := Fin 0])) ar"
  have shar: "has_shape2 2 3 ar" and w: "attentions_reweighted outs 1 = Inr w"
    using attentions_reweighted_window [OF win' ar] by (simp_all add: w_def)
  have lenar: "length ar = 2" using shar by (simp add: has_shape2_iff)
  have z: "set_column0 ar = Inr (map (\<lambda>r. r[0 := Fin 0]) ar)"
    by (rule set_column0_ok [OF shar]) simp
  have z0: "map (\<lambda>r. r[0 := Fin 0]) ar ! 0 = [Fin 0, Fin (3 / 10), Fin (2 / 10)]"
    using lenar by (simp add: ar0)
  have w0: "w ! 0 = [Fin 0, Fin (6 / 10), Fin (4 / 10)]"
    using lenar by (simp add: w_def ar0 zero_fl_def)
  define emb where
    "emb = map (\<lambda>b. map (\<lambda>d. sum_list (map (\<lambda>t. hs ! b ! t ! d * w ! b ! t) [0..<3])) [0..<4]) [0..<2]"
  have emb: "reducer outs 1 = Inr emb"
    using reducer_valid [OF win hs w] by (simp add: emb_def)
  have "[0..<4] = [0, 1, 2, 3]" "[0..<3] = [0, 1, 2]" "[0..<2] = [0, 1]"
    by (simp_all add: upt_rec)
  then have "emb ! 0 = [Fin (12 / 10), Fin (8 / 10), Fin 0, Fin 0]"
    by (simp add: emb_def hs0 w0 zero_fl_def)
  moreover have "length emb = 2" by (simp add: emb_def)
  ultimately show ?thesis using z z0 w w0 emb by blast
qed

theorem scenario_embedding_row_witness:
  "valid_window scenario 1 2 3 4 1 \<and>
   (\<exists>hs ar. hidden_states_sum scenario 1 = Inr hs \<and>
      hs ! 0 = [[Fin 1, Fin 1, Fin 1, Fin 1], [Fin 2, Fin 0, Fin 0, Fin 0], [Fin 0, Fin 2, Fin 0, Fin 0]] \<and>
      attentions_reduced scenario 1 = Inr ar \<and>
      ar ! 0 = [Fin (5 / 10), Fin (3 / 10), Fin (2 / 10)]) \<and>
   (\<exists>w emb. attentions_reweighted scenario 1 = Inr w \<and>
      w ! 0 = [Fin 0, Fin (6 / 10), Fin (4 / 10)] \<and>
      reducer scenario 1 = Inr emb \<and> length emb = 2 \<and>
      emb ! 0 = [Fin (12 / 10), Fin (8 / 10), Fin 0, Fin 0])"
proof -
  have v: "valid_window scenario 1 2 3 4 1"
    by (simp add: shape_defs scenario_def)
  have ar: "attentions_reduced scenario 1 =
      Inr [[Fin (5 / 10), Fin (3 / 10), Fin (2 / 10)], [Fin (1 / 2), Fin (1 / 4), Fin (1 / 4)]]"
    by (simp add: eval_defs scenario_def)
  have hs: "hidden_states_sum scenario 1 = Inr (hd (hidden_states scenario))"
    by (simp add: eval_defs scenario_def)
  have hs0: "hd (hidden_states scenario) ! 0 =
      [[Fin 1, Fin 1, Fin 1, Fin 1], [Fin 2, Fin 0, Fin 0, Fin 0], [Fin 0, Fin 2, Fin 0, Fin 0]]"
    by (simp add: scenario_def)
  have ar0: "[[Fin (5 / 10), Fin (3 / 10), Fin (2 / 10)], [Fin (1 / 2), Fin (1 / 4), Fin (1 / 4)]] ! 0 =
      [Fin (5 / 10), Fin (3 / 10), Fin (2 / 10)]"
    by simp
  from scenario_embedding_row [OF v hs hs0 ar ar0] v hs hs0 ar ar0 show ?thesis
    by blast
qed

subsection \<open>Windows of different shapes\<close>

lemma zip_replicate_left:
  "p \<in> set (zip (replicate n c) ys) \<Longrightarrow> fst p = c \<and> snd p \<in> set ys"
  by (cases p) (auto simp: in_set_zip)

lemma zip_replicate_right:
  "p \<in> set (zip xs (replicate n c)) \<Longrightarrow> fst p \<in> set xs \<and> snd p = c"
  by (cases p) (auto simp: in_set_zip)

lemma broadcast_compatible:
  assumes "length xs = n" and "length ys = m" and "0 < n" and "0 < m"
    and "n = m \<or> n = 1 \<or> m = 1"
  shows "\<exists>ps. broadcast xs ys = Inr ps \<and> length ps = max n m \<and>
    (\<forall>p\<in>set ps. fst p \<in> set xs \<and> snd p \<in> set ys)"
proof (cases "n = m")
  case True
  with assms show ?thesis
    by (auto simp: broadcast_def dest: set_zip_leftD set_zip_rightD)
next
  case False
  show ?thesis
  proof (cases "n = 1")
    case True
    with assms have "hd xs \<in> set xs" by (cases xs) simp_all
    with assms False True show ?thesis
      by (auto simp: broadcast_def dest!: zip_replicate_left)
  next
    case n: False
    with assms False have m: "m = 1" by simp
    with assms have "hd ys \<in> set ys" by (cases ys) simp_all
    with assms False n m show ?thesis
      by (auto simp: broadcast_def dest!: zip_replicate_right)
  qed
qed

lemma collect_all:
  assumes "\<And>x. x \<in> set xs \<Longrightarrow> \<exists>y. f x = Inr y \<and> P y"
  shows "\<exists>ys. collect f xs = Inr ys \<and> length ys = length xs \<and> (\<forall>y\<in>set ys. P y)"
  using assms
proof (induction xs)
  case Nil
  then show ?case by simp
next
  case (Cons x xs)
  then obtain y where y: "f x = Inr y" "P y" by auto
  from Cons obtain ys where "collect f xs = Inr ys" "length ys = length xs" "\<forall>y\<in>set ys. P y"
    by auto
  with y show ?case by simp
qed

lemma reduce0_length:
  assumes "has_shape2 t d x" and "0 < t"
  shows "length (reduce0 f x) = d"
proof -
  from assms have "x \<noteq> []" "\<And>r. r \<in> set x \<Longrightarrow> length r = d"
    by (auto simp: has_shape2_iff)
  then show ?thesis by (simp add: reduce0_rect [where n = d])
qed

lemma mul_unsqueeze2_broadcast:
  assumes h: "has_shape3 B T D hs" and w: "has_shape2 B' T' w"
    and pos: "0 < B" "0 < T" "0 < B'" "0 < T'"
  shows "if (B = B' \<or> B = 1 \<or> B' = 1) \<and> (T = T' \<or> T = 1 \<or> T' = 1)
    then \<exists>e. mul_unsqueeze2 hs w = Inr e \<and> has_shape3 (max B B') (max T T') D e
    else mul_unsqueeze2 hs w = Inl RuntimeError"
proof -
  let ?f = "\<lambda>(hb, wb). case broadcast hb wb of Inl e \<Rightarrow> Inl e
     | Inr ts \<Rightarrow> Inr (map (\<lambda>(ht, a). map (\<lambda>x. x * a) ht) ts)"
  have lh: "length hs = B" and lw: "length w = B'"
    using h w by (simp_all add: has_shape3_iff has_shape2_iff)
  show ?thesis
  proof (cases "B = B' \<or> B = 1 \<or> B' = 1")
    case False
    then have "broadcast hs w = Inl RuntimeError"
      by (intro broadcast_mismatch) (simp_all add: lh lw)
    with False show ?thesis by (simp add: mul_unsqueeze2_def)
  next
    case bc: True
    from broadcast_compatible [OF lh lw pos(1,3) bc] obtain ps
      where ps: "broadcast hs w = Inr ps" "length ps = max B B'"
        and mem: "\<And>p. p \<in> set ps \<Longrightarrow> fst p \<in> set hs \<and> snd p \<in> set w"
      by blast
    have lens: "length hb = T \<and> length wb = T' \<and> (\<forall>r\<in>set hb. length r = D)"
      if "(hb, wb) \<in> set ps" for hb wb
      using mem [OF that] h w by (auto simp: has_shape3_iff has_shape2_iff)
    have mul: "mul_unsqueeze2 hs w = collect ?f ps"
      by (simp add: mul_unsqueeze2_def ps)
    show ?thesis
    proof (cases "T = T' \<or> T = 1 \<or> T' = 1")
      case False
      from ps(2) pos obtain p ps' where p: "ps = p # ps'" by (cases ps) auto
      obtain hb wb where hw: "p = (hb, wb)" by (cases p)
      then have "(hb, wb) \<in> set ps" by (simp add: p)
      from lens [OF this] False have "broadcast hb wb = Inl RuntimeError"
        by (intro broadcast_mismatch) simp_all
      then have "collect ?f ps = Inl RuntimeError" by (simp add: p hw)
      with False mul show ?thesis by simp
    next
      case tc: True
      have "\<exists>y. ?f p = Inr y \<and> has_shape2 (max T T') D y" if "p \<in> set ps" for p
      proof -
        obtain hb wb where hw: "p = (hb, wb)" by (cases p)
        with that have l: "length hb = T" "length wb = T'" "\<And>r. r \<in> set hb \<Longrightarrow> length r = D"
          using lens by auto
        from broadcast_compatible [OF l(1,2) pos(2,4) tc] obtain ts
          where ts: "broadcast hb wb = Inr ts" "length ts = max T T'"
            and tmem: "\<And>q. q \<in> set ts \<Longrightarrow> fst q \<in> set hb"
          by blast
        have "has_shape2 (max T T') D (map (\<lambda>(ht, a). map (\<lambda>x. x * a) ht) ts)"
          using ts(2) tmem l(3) by (auto simp: has_shape2_iff)
        with ts(1) hw show ?thesis by simp
      qed
      from collect_all [of ps ?f "has_shape2 (max T T') D", OF this] ps(2) mul bc tc
      show ?thesis by (auto simp: has_shape3_iff)
    qed
  qed
qed

text \<open>
  Claim C7, as the code has it. The Reducer checks no shape itself. For a window of hidden
  states of shape (B, T, D) and attentions of shape (B', H, T', T') the product of
  line 99 broadcasts: when the batch sizes are equal or one of them is 1, and likewise the
  token counts, the Reducer returns embeddings for \<open>max B B'\<close> images; otherwise torch
  raises a RuntimeError.
\<close>

theorem shape_mismatch_raises_unless_broadcast:
  assumes win: "window outs k B T D B' H T'"
  shows "if (B = B' \<or> B = 1 \<or> B' = 1) \<and> (T = T' \<or> T = 1 \<or> T' = 1)
    then \<exists>emb. reducer outs k = Inr emb \<and> has_shape2 (max B B') D emb
    else reducer outs k = Inl RuntimeError"
proof -
  from win have pos: "0 < B" "0 < T" "0 < B'" "0 < T'" by (simp_all add: window_def)
  obtain hs where hs: "hidden_states_sum outs k = Inr hs" and shh: "has_shape3 B T D hs"
    by (simp add: hidden_states_sum_window [OF win] has_shape3_iff has_shape2_iff)
  obtain ar where ar: "attentions_reduced outs k = Inr ar"
    by (simp add: attentions_reduced_window [OF win])
  define w where "w = map (\<lambda>r. map (\<lambda>a. a / sum_list (r[0 := Fin 0])) (r[0 := Fin 0])) ar"
  have "has_shape2 B' T' ar" and w: "attentions_reweighted outs k = Inr w"
    using attentions_reweighted_window [OF win ar] by (simp_all add: w_def)
  then have shw: "has_shape2 B' T' w" by (auto simp: w_def has_shape2_iff)
  have red: "reducer outs k =
      (case mul_unsqueeze2 hs w of Inl e \<Rightarrow> Inl e | Inr e \<Rightarrow> Inr (torch_sum1 e))"
    by (simp add: reducer_def hs w)
  show ?thesis
  proof (cases "(B = B' \<or> B = 1 \<or> B' = 1) \<and> (T = T' \<or> T = 1 \<or> T' = 1)")
    case False
    from mul_unsqueeze2_broadcast [OF shh shw pos]
    have "mul_unsqueeze2 hs w = Inl RuntimeError"
      by (simp only: False if_False)
    then have "reducer outs k = Inl RuntimeError" by (simp add: red)
    then show ?thesis by (simp only: False if_False)
  next
    case True
    from mul_unsqueeze2_broadcast [OF shh shw pos]
    have "\<exists>e. mul_unsqueeze2 hs w = Inr e \<and> has_shape3 (max B B') (max T T') D e"
      by (simp only: True if_True)
    then obtain e
      where e: "mul_unsqueeze2 hs w = Inr e" "has_shape3 (max B B') (max T T') D e"
      by blast
    have "has_shape2 (max B B') D (torch_sum1 e)"
      using e(2) pos by (auto simp: torch_sum1_def has_shape3_iff has_shape2_iff [of _ D]
          intro!: reduce0_length [where t = "max T T'"])
    with e(1) have "\<exists>emb. reducer outs k = Inr emb \<and> has_shape2 (max B B') D emb"
      by (simp add: red)
    with True show ?thesis by (simp only: if_True simp_thms)
  qed
qed

theorem shape_mismatch_raises_unless_broadcast_witness:
  "window incompatible 1 3 2 1 2 1 2 \<and> reducer incompatible 1 = Inl RuntimeError"
proof -
  have v: "window incompatible 1 3 2 1 2 1 2"
    by (simp add: shape_defs incompatible_def)
  from shape_mismatch_raises_unless_broadcast [OF v] v show ?thesis
    by simp
qed

text \<open>
  The claim as the specification states it fails: hidden states of two images and
  attentions of one disagree on the batch axis, and the Reducer broadcasts the one row of
  weights and returns two embeddings.
\<close>

theorem batch_mismatch_broadcast_counterexample:
  "window mismatched 1 2 2 1 1 1 2 \<and> reducer mismatched 1 = Inr [[Fin 5], [Fin 7]]"
  by (simp add: shape_defs eval_defs mismatched_def)

subsection \<open>The public entry point\<close>

lemma batch_singleton: "batch [x] 1 = Inr [[x]]"
  by (simp add: batch_def py_range_step_def py_slice_def Let_def)

lemmas entry_defs = to_embeddings_def constant_encoder_def batch_def py_range_step_def
  py_slice_def process_inputs_def create_embeddings_def np_vstack_def

text \<open>
  Claim C10. An input that is not a list is wrapped into a list of one element: the call
  with \<open>x\<close> returns what the call with \<open>[x]\<close> returns, whatever the other arguments.
  When the encoder returns a valid window for the one image, a batch size above 1 gives a
  result of one embedding row, and every result the call returns has exactly one row.
\<close>

theorem single_input_is_wrapped:
  "to_embeddings self (Single x) k bs rf = to_embeddings self (Many [x]) k bs rf \<and>
   (valid_window (model self (process_inputs self [x])) k 1 T D H \<longrightarrow>
      (1 < bs \<longrightarrow> (\<exists>e. to_embeddings self (Single x) k bs rf =
          Inr (if rf = ''np'' then NdArray [e] else Tensor [e]))) \<and>
      (\<forall>r. to_embeddings self (Single x) k bs rf = Inr r \<longrightarrow> length (rows_of r) = 1))"
proof (intro conjI impI)
  show "to_embeddings self (Single x) k bs rf = to_embeddings self (Many [x]) k bs rf"
    by (simp add: to_embeddings_def)
next
  assume "valid_window (model self (process_inputs self [x])) k 1 T D H"
  from reducer_valid_ex [OF this] obtain emb
    where "reducer (model self (process_inputs self [x])) k = Inr emb" "has_shape2 1 D emb"
    by blast
  then obtain e where ce: "create_embeddings self (process_inputs self [x]) k = Inr [e]"
    by (cases emb) (auto simp: create_embeddings_def has_shape2_iff)
  {
    assume "1 < bs"
    then show "\<exists>e. to_embeddings self (Single x) k bs rf =
        Inr (if rf = ''np'' then NdArray [e] else Tensor [e])"
      by (simp add: to_embeddings_def ce)
  }
  show "\<forall>r. to_embeddings self (Single x) k bs rf = Inr r \<longrightarrow> length (rows_of r) = 1"
  proof (intro allI impI)
    fix r assume r: "to_embeddings self (Single x) k bs rf = Inr r"
    consider "1 < bs" | "bs = 1" | "bs = 0" | "bs < 0" by linarith
    then show "length (rows_of r) = 1"
    proof cases
      case 1
      with r show ?thesis by (auto simp: to_embeddings_def ce split: if_splits)
    next
      case 2
      with r show ?thesis
        by (auto simp: to_embeddings_def ce batch_singleton np_vstack_def split: if_splits)
    next
      case 3
      with r show ?thesis by (simp add: to_embeddings_def batch_def)
    next
      case 4
      with r show ?thesis by (simp add: to_embeddings_def batch_def np_vstack_def)
    qed
  qed
qed

theorem single_input_is_wrapped_witness:
  "valid_window (model constant_encoder (process_inputs constant_encoder [7])) 1 1 2 1 1 \<and>
   to_embeddings constant_encoder (Single 7) 1 64 ''np'' = Inr (NdArray [[Fin 7]]) \<and>
   to_embeddings constant_encoder (Many [7]) 1 64 ''np'' = Inr (NdArray [[Fin 7]]) \<and>
   length (rows_of (NdArray [[Fin 7]])) = 1"
proof -
  have v: "valid_window (model constant_encoder (process_inputs constant_encoder [7])) 1 1 2 1 1"
    by (simp add: shape_defs constant_encoder_def process_inputs_def)
  have s: "to_embeddings constant_encoder (Single 7) 1 64 ''np'' = Inr (NdArray [[Fin 7]])"
    by (simp add: entry_defs eval_defs)
  from single_input_is_wrapped [of constant_encoder 7 1 64 "''np''" 2 1 1] v s
  show ?thesis by simp
qed

text \<open>
  Claim C2, evaluated on the code. Three images in batches of two: the loop of lines 58
  to 61 assigns each batch's embeddings to \<open>embeddings\<close> instead of appending them, so
  the result holds the embedding of the last batch alone (image 3) and not the three rows
  of the three images; with the default format \<open>np\<close> the call raises, since a numpy
  array has no method \<open>numpy\<close>.
\<close>

theorem batched_run_keeps_last_batch_only:
  "to_embeddings constant_encoder (Many [1, 2, 3]) 1 2 ''pt'' = Inr (Tensor [[Fin 3]]) \<and>
   to_embeddings constant_encoder (Many [1, 2, 3]) 1 2 ''np'' = Inl AttributeError \<and>
   map (\<lambda>x. create_embeddings constant_encoder (process_inputs constant_encoder [x]) 1) [1, 2, 3] =
     [Inr [[Fin 1]], Inr [[Fin 2]], Inr [[Fin 3]]]"
  by (simp add: entry_defs eval_defs)

text \<open>
  Claim C3, evaluated on the code. The same three images give three rows in one chunk (a
  batch size of 4) and one row in chunks of size 2 or 1.
\<close>

theorem chunk_size_changes_embeddings:
  "to_embeddings constant_encoder (Many [1, 2, 3]) 1 4 ''pt'' =
     Inr (Tensor [[Fin 1], [Fin 2], [Fin 3]]) \<and>
   to_embeddings constant_encoder (Many [1, 2, 3]) 1 2 ''pt'' = Inr (Tensor [[Fin 3]]) \<and>
   to_embeddings constant_encoder (Many [1, 2, 3]) 1 1 ''pt'' = Inr (Tensor [[Fin 3]])"
  by (simp add: entry_defs eval_defs)

subsection \<open>The reduction on the store\<close>

lemmas load_defs = load2_def load3_def load4_def load5_def

lemma collect_cong_set:
  "(\<And>x. x \<in> set xs \<Longrightarrow> f x = g x) \<Longrightarrow> collect f xs = collect g xs"
  by (induction xs) (simp_all split: sum.splits)

lemma load_append:
  "a < length s \<Longrightarrow> load3 (s @ t) a = load3 s a"
  "a < length s \<Longrightarrow> load4 (s @ t) a = load4 s a"
  by (simp_all add: load_defs nth_append)

lemma collect_load_bound:
  "collect (load3 s) refs = Inr xs \<Longrightarrow> a \<in> set refs \<Longrightarrow> a < length s"
  "collect (load4 s) refs = Inr ys \<Longrightarrow> a \<in> set refs \<Longrightarrow> a < length s"
proof (induction refs arbitrary: xs ys)
  case Nil
  { case 1 then show ?case by simp }
  { case 2 then show ?case by simp }
next
  case (Cons r refs)
  { case 1
    then show ?case using Cons.IH(1)
      by (auto simp: load3_def split: sum.splits if_splits) }
  { case 2
    then show ?case using Cons.IH(2)
      by (auto simp: load4_def split: sum.splits if_splits) }
qed

lemma collect_load_append:
  "collect (load3 s) refs = Inr xs \<Longrightarrow> collect (load3 (s @ t)) refs = Inr xs"
  "collect (load4 s) refs = Inr ys \<Longrightarrow> collect (load4 (s @ t)) refs = Inr ys"
proof -
  assume a: "collect (load3 s) refs = Inr xs"
  have "collect (load3 (s @ t)) refs = collect (load3 s) refs"
    by (rule collect_cong_set) (simp add: load_append collect_load_bound(1) [OF a])
  with a show "collect (load3 (s @ t)) refs = Inr xs" by simp
next
  assume a: "collect (load4 s) refs = Inr ys"
  have "collect (load4 (s @ t)) refs = collect (load4 s) refs"
    by (rule collect_cong_set) (simp add: load_append collect_load_bound(2) [OF a])
  with a show "collect (load4 (s @ t)) refs = Inr ys" by simp
qed

lemma collect_length: "collect f xs = Inr ys \<Longrightarrow> length ys = length xs"
  by (induction xs arbitrary: ys) (auto split: sum.splits)

lemma collect_nth: "collect f xs = Inr ys \<Longrightarrow> i < length xs \<Longrightarrow> f (xs ! i) = Inr (ys ! i)"
proof (induction xs arbitrary: ys i)
  case Nil
  then show ?case by simp
next
  case (Cons x xs)
  then show ?case by (cases i) (auto split: sum.splits)
qed

lemma and_then_Inr: "and_then (Inr x) f = f x"
  by (simp add: and_then_def)

lemma and_then_Inl: "and_then (Inl e) f = Inl e"
  by (simp add: and_then_def)

lemma py_index_collect:
  assumes "collect f xs = Inr ys"
  shows "(py_index xs i = Inl IndexError \<and> py_index ys i = Inl IndexError) \<or>
    (\<exists>x y. py_index xs i = Inr x \<and> f x = Inr y \<and> py_index ys i = Inr y)"
proof -
  note len = collect_length [OF assms]
  note nth = collect_nth [OF assms]
  consider "0 \<le> i \<and> i < int (length xs)" | "i < 0 \<and> - int (length xs) \<le> i"
    | "\<not> (0 \<le> i \<and> i < int (length xs)) \<and> \<not> (i < 0 \<and> - int (length xs) \<le> i)"
    by blast
  then show ?thesis
  proof cases
    case 1
    then have "nat i < length xs" by linarith
    from nth [OF this] 1 show ?thesis by (simp add: py_index_def len)
  next
    case 2
    then have "nat (int (length xs) + i) < length xs" by linarith
    from nth [OF this] 2 show ?thesis by (simp add: py_index_def len)
  next
    case 3
    then show ?thesis by (auto simp: py_index_def len)
  qed
qed

lemma collect_select:
  assumes "collect f xs = Inr ys"
  shows "and_then (collect (py_index xs) is) (\<lambda>rs. and_then (collect f rs) g) =
    and_then (collect (py_index ys) is) g"
proof -
  have "and_then (collect (py_index xs) is) (collect f) = collect (py_index ys) is"
  proof (induction "is")
    case Nil
    then show ?case by (simp add: and_then_def)
  next
    case (Cons i "is")
    from py_index_collect [OF assms, of i] Cons show ?case
      by (auto simp: and_then_def split: sum.splits)
  qed
  then show ?thesis
    by (auto simp: and_then_def split: sum.splits)
qed

lemma last_layers_select:
  assumes "collect f xs = Inr ys"
  shows "and_then (last_layers xs k) (\<lambda>rs. and_then (collect f rs) g) =
    and_then (last_layers ys k) g"
  unfolding last_layers_def by (rule collect_select [OF assms])

lemma reducer_chain:
  "reducer vals k =
     and_then (last_layers (hidden_states vals) k) (\<lambda>hl.
     and_then (torch_stack shape3 hl) (\<lambda>hst.
     and_then (last_layers (attentions vals) k) (\<lambda>al.
     and_then (torch_stack shape4 al) (\<lambda>ast.
     and_then (set_column0 (torch_mean123 (torch_transpose10 ast))) (\<lambda>z.
     and_then (mul_unsqueeze2 (torch_sum0 hst) (div_row_sum z)) (\<lambda>e.
     Inr (torch_sum1 e)))))))"
  by (simp add: reducer_def hidden_states_sum_def attentions_reweighted_def
      attentions_reduced_def reweight_def and_then_def split: sum.splits)

lemma reducer_store_chain:
  assumes hs: "collect (load3 s) (hidden_states_ref outs) = Inr hs"
    and as: "collect (load4 s) (attentions_ref outs) = Inr as"
  shows "reducer_store s outs k =
     and_then (last_layers hs k) (\<lambda>hl.
     and_then (torch_stack shape3 hl) (\<lambda>hst.
     and_then (last_layers as k) (\<lambda>al.
     and_then (torch_stack shape4 al) (\<lambda>ast.
     and_then (set_column0 (torch_mean123 (torch_transpose10 ast))) (\<lambda>z.
     and_then (mul_unsqueeze2 (torch_sum0 hst) (div_row_sum z)) (\<lambda>e.
     Inr (length s + 6,
       s @ [Rank4 hst, Rank3 (torch_sum0 hst), Rank5 ast, Rank2 z, Rank2 (div_row_sum z),
            Rank3 e, Rank2 (torch_sum1 e)])))))))"
proof -
  note sel_h = last_layers_select [OF hs]
  note sel_a = last_layers_select [OF collect_load_append(2) [OF as]]
  have six: "length s + 6 = Suc (Suc (Suc (Suc (Suc (Suc (length s))))))"
    by simp
  show ?thesis
    unfolding reducer_store_def sel_h six
    by (simp add: alloc_def load_defs nth_append list_update_append sel_a
        and_then_Inr and_then_Inl)
qed

lemma derefD:
  assumes "deref s outs = Inr vals"
  shows "collect (load3 s) (hidden_states_ref outs) = Inr (hidden_states vals)"
    and "collect (load4 s) (attentions_ref outs) = Inr (attentions vals)"
  using assms by (auto simp: deref_def and_then_def split: sum.splits)

lemma deref_append:
  assumes "deref s outs = Inr vals"
  shows "deref (s @ t) outs = Inr vals"
  using derefD [OF assms] assms
  by (simp add: deref_def collect_load_append and_then_Inr)

text \<open>
  Claim C9. Let the encoder's outputs be tensors of the store, with contents \<open>vals\<close>.
  Running the reduction on the store raises exactly when the function \<open>reducer\<close> of
  the contents does, with the same error. Otherwise it leaves every tensor that existed
  before the call as it was (the only write in place, line 94, goes to a tensor that the
  call allocated), so the outputs still have the contents \<open>vals\<close>, and the tensor it
  returns holds \<open>reducer vals k\<close>: the result is a function of the contents of the
  inputs and of \<open>num_layers\<close> alone, and a second call finds the same inputs and
  returns the same embeddings.
\<close>

theorem reducer_store_pure:
  assumes "deref s outs = Inr vals"
  shows "case reducer_store s outs k of
      Inl e \<Rightarrow> reducer vals k = Inl e
    | Inr (a, s') \<Rightarrow>
        take (length s) s' = s \<and> deref s' outs = Inr vals \<and>
        (\<exists>r. load2 s' a = Inr r \<and> reducer vals k = Inr r)"
  unfolding reducer_store_chain [OF derefD [OF assms]] reducer_chain
  by (auto simp: and_then_def load2_def nth_append deref_append [OF assms] split: sum.splits)

theorem reducer_store_pure_witness:
  "deref scenario_store scenario_ref = Inr scenario \<and>
   (\<exists>a s'. reducer_store scenario_store scenario_ref 1 = Inr (a, s') \<and>
      take (length scenario_store) s' = scenario_store \<and>
      deref s' scenario_ref = Inr scenario \<and>
      load2 s' a = reducer scenario 1)"
proof -
  have d: "deref scenario_store scenario_ref = Inr scenario"
    by (simp add: deref_def scenario_store_def scenario_ref_def scenario_def and_then_def
        load3_def load4_def)
  have r: "reducer scenario 1 \<noteq> Inl e" for e
    by (simp add: eval_defs scenario_def)
  from reducer_store_pure [OF d, of 1] r d show ?thesis
    by (auto split: sum.splits)
qed

end
